theory Spec2Isabelle
  imports Complex_Main "HOL-Library.Code_Target_Numeral"
begin

section \<open>SCADA mock: telemetry simulation and alarm evaluation (src/src/App.tsx)\<close>

text \<open>
  The engine lives inside the React component \<open>App\<close>: the component's state variables
  are the engine state, the \<open>setInterval\<close> callback is the tick, and the button and input
  handlers are the commands. The model passes the state explicitly.

  Numbers. A JavaScript number is an IEEE double. Every reading of the simulation is
  computed from \<open>Math.random()\<close> and finite constants, so it is finite, and it is
  modelled by the real number the double denotes (the two zeros are not told apart). In
  the tick and in \<open>genSeed\<close> every arithmetic operation and every decimal literal that is
  not a double is followed by \<open>fl\<close>, the rounding of a real to the nearest double, as the
  double operation does; integers such as 70 and the literal 0.5 are doubles already. The
  KPI formulas are stated over the reals. A setpoint is whatever \<open>Number(e.target.value)\<close>
  returned, which can be \<open>NaN\<close> or an infinity, so setpoints are modelled by \<open>jsnum\<close>.

  Randomness and time. \<open>Math.random()\<close> is an input: a function \<open>rnd\<close> whose value at
  \<open>i\<close> is the \<open>i\<close>-th draw made by the operation. \<open>nowLabel()\<close> is an input string.
\<close>

subsection \<open>Types\<close>

text \<open>\<^verbatim>\<open>type Point = { time: string; value: number }\<close>\<close>

record Point =
  p_time :: string
  p_value :: real

text \<open>
  \<^verbatim>\<open>type Alarm = { type: string; value: number | string; time: string }\<close>.
  Every alarm the code builds has a number as its value.
\<close>

record Alarm =
  a_type :: string
  a_value :: real
  a_time :: string

datatype jsnum = Num real | NaN | PosInf | NegInf

text \<open>The relational operators of JavaScript on numbers: any comparison with \<open>NaN\<close> is false.\<close>

fun js_lt :: "jsnum \<Rightarrow> jsnum \<Rightarrow> bool" where
  "js_lt NaN _ = False"
| "js_lt _ NaN = False"
| "js_lt (Num a) (Num b) = (a < b)"
| "js_lt (Num _) PosInf = True"
| "js_lt NegInf (Num _) = True"
| "js_lt NegInf PosInf = True"
| "js_lt _ _ = False"

definition js_gt :: "jsnum \<Rightarrow> jsnum \<Rightarrow> bool" where
  "js_gt a b = js_lt b a"

record Setpoints =
  tempHigh :: jsnum
  flowLow :: jsnum
  pressHigh :: jsnum
  levelLow :: jsnum
  levelHigh :: jsnum

text \<open>The state variables of \<open>App\<close> (lines 60 to 98), in the order of their declaration.\<close>

record State =
  tempSeries :: "Point list"
  flowSeries :: "Point list"
  pressSeries :: "Point list"
  levelSeries :: "Point list"
  tIn :: real
  tOut :: real
  flow :: real
  press :: real
  level :: real
  pumpOn :: bool
  fanOn :: bool
  ethConnected :: bool
  modbusConnected :: bool
  alarms :: "Alarm list"
  setpoints :: Setpoints

record KPIs =
  dt :: real
  efficiency :: real
  cop :: real

subsection \<open>Double arithmetic\<close>

text \<open>Rounding a real to the nearest integer, to the even one on a tie.\<close>

definition rne :: "real \<Rightarrow> int" where
  "rne y = (let f = \<lfloor>y\<rfloor>; d = y - of_int f
            in if d < 1 / 2 then f else if 1 / 2 < d then f + 1
               else if even f then f else f + 1)"

text \<open>The number of binary digits of a natural number.\<close>

fun bitlen :: "nat \<Rightarrow> nat" where
  "bitlen n = (if n = 0 then 0 else Suc (bitlen (n div 2)))"

declare bitlen.simps [simp del]

text \<open>The binary exponent of a positive real \<open>x\<close>: the \<open>e\<close> with \<open>2^e \<le> x < 2^(e+1)\<close>.\<close>

definition expo :: "real \<Rightarrow> int" where
  "expo x = (if 1 \<le> x then int (bitlen (nat \<lfloor>x\<rfloor>)) - 1
             else - int (bitlen (nat (\<lceil>1 / x\<rceil> - 1))))"

text \<open>
  The distance between neighbouring doubles around \<open>x\<close>: 52 binary places below the
  exponent of \<open>x\<close>, and never below \<open>2^-1074\<close> (subnormal numbers).
\<close>

definition ulp :: "real \<Rightarrow> real" where
  "ulp x = 2 powi (max (expo \<bar>x\<bar>) (- 1022) - 52)"

text \<open>
  The double nearest to a real, ties to the even significand (IEEE 754 round to nearest).
  The results of the program stay far below \<open>2^1024\<close>; the overflow to an infinity is
  in \<open>to_number\<close>, which the conversion of input text uses.
\<close>

definition fl :: "real \<Rightarrow> real" where
  "fl x = (if x = 0 then 0
           else let q = 2 powi (max (expo \<bar>x\<bar>) (- 1022) - 52)
                in of_int (rne (x / q)) * q)"

definition to_number :: "real \<Rightarrow> jsnum" where
  "to_number x =
     (if 2 ^ 1024 \<le> \<bar>fl x\<bar> then (if x < 0 then NegInf else PosInf) else Num (fl x))"

subsection \<open>Library functions of JavaScript\<close>

text \<open>
  \<open>x.toFixed(2)\<close>, as the decimal number it prints: \<open>toFixed\<close> works on the absolute
  value, picks the integer \<open>n\<close> with \<open>n / 100\<close> nearest to it (the larger one on a tie),
  and restores the sign; from \<open>10^21\<close> on it prints the number itself.
  \<open>Number(x.toFixed(2))\<close> is then \<open>fl (round2 x)\<close>, the double nearest to that decimal.
\<close>

definition round2 :: "real \<Rightarrow> real" where
  "round2 x =
     (if 10 ^ 21 \<le> \<bar>x\<bar> then x
      else if x < 0 then - (real_of_int \<lfloor>(- x) * 100 + 1 / 2\<rfloor> / 100)
      else real_of_int \<lfloor>x * 100 + 1 / 2\<rfloor> / 100)"

text \<open>
  \<open>xs.slice(start, stop)\<close>; \<open>stop\<close> is \<open>None\<close> when the argument is left out.
  A negative index counts from the end; both indices are clipped to the array.
\<close>

definition slice :: "'a list \<Rightarrow> int \<Rightarrow> int option \<Rightarrow> 'a list" where
  "slice xs start stop =
     (let len = int (length xs);
          k = (if start < 0 then max (len + start) 0 else min start len);
          e = (case stop of None \<Rightarrow> len | Some e \<Rightarrow> e);
          fin = (if e < 0 then max (len + e) 0 else min e len)
      in take (nat (fin - k)) (drop (nat k) xs))"

text \<open>The template literal \<^verbatim>\<open>`${i}`\<close> for a loop counter: its decimal digits.\<close>

definition digit :: "nat \<Rightarrow> char" where
  "digit d = ''0123456789'' ! d"

fun show_nat :: "nat \<Rightarrow> string" where
  "show_nat n = (if n < 10 then [digit n] else show_nat (n div 10) @ [digit (n mod 10)])"

declare show_nat.simps [simp del]

text \<open>
  \<open>Number(str)\<close> for a string (the abstract operation StringToNumber of ECMAScript).
  A string is modelled by its UTF-8 bytes. White space at both ends is dropped; these
  are the characters StrWhiteSpaceChar: TAB, LF, VT, FF, CR, space, U+00A0, U+1680,
  U+2000 to U+200A, U+2028, U+2029, U+202F, U+205F, U+3000 and U+FEFF.
\<close>

definition ws_tokens :: "string list" where
  "ws_tokens =
     [[CHR 0x09], [CHR 0x0A], [CHR 0x0B], [CHR 0x0C], [CHR 0x0D], [CHR 0x20],
      [CHR 0xC2, CHR 0xA0], [CHR 0xE1, CHR 0x9A, CHR 0x80],
      [CHR 0xE2, CHR 0x80, CHR 0x80], [CHR 0xE2, CHR 0x80, CHR 0x81],
      [CHR 0xE2, CHR 0x80, CHR 0x82], [CHR 0xE2, CHR 0x80, CHR 0x83],
      [CHR 0xE2, CHR 0x80, CHR 0x84], [CHR 0xE2, CHR 0x80, CHR 0x85],
      [CHR 0xE2, CHR 0x80, CHR 0x86], [CHR 0xE2, CHR 0x80, CHR 0x87],
      [CHR 0xE2, CHR 0x80, CHR 0x88], [CHR 0xE2, CHR 0x80, CHR 0x89],
      [CHR 0xE2, CHR 0x80, CHR 0x8A], [CHR 0xE2, CHR 0x80, CHR 0xA8],
      [CHR 0xE2, CHR 0x80, CHR 0xA9], [CHR 0xE2, CHR 0x80, CHR 0xAF],
      [CHR 0xE2, CHR 0x81, CHR 0x9F], [CHR 0xE3, CHR 0x80, CHR 0x80],
      [CHR 0xEF, CHR 0xBB, CHR 0xBF]]"

function strip_front :: "string list \<Rightarrow> string \<Rightarrow> string" where
  "strip_front toks s =
     (case find (\<lambda>w. w \<noteq> [] \<and> take (length w) s = w) toks of
        None \<Rightarrow> s
      | Some w \<Rightarrow> strip_front toks (drop (length w) s))"
  by pat_completeness auto
termination
proof (relation "measure (\<lambda>(toks, s). length s)")
  show "wf (measure (\<lambda>(toks, s). length s))" by simp
next
  fix toks :: "string list" and s w :: string
  assume "find (\<lambda>w. w \<noteq> [] \<and> take (length w) s = w) toks = Some w"
  then have "w \<noteq> []" "take (length w) s = w" by (auto simp: find_Some_iff)
  then have "s \<noteq> []" by auto
  with \<open>w \<noteq> []\<close> show "((toks, drop (length w) s), (toks, s)) \<in> measure (\<lambda>(toks, s). length s)"
    by simp
qed

declare strip_front.simps [simp del]

definition trim :: "string \<Rightarrow> string" where
  "trim s = rev (strip_front (map rev ws_tokens) (rev (strip_front ws_tokens s)))"

text \<open>Digits of a base up to 16 and their values.\<close>

definition is_digit :: "nat \<Rightarrow> char \<Rightarrow> bool" where
  "is_digit base c =
     (let n = (of_char c :: nat)
      in (48 \<le> n \<and> n < 48 + min base 10)
         \<or> (10 < base \<and> ((97 \<le> n \<and> n < 87 + base) \<or> (65 \<le> n \<and> n < 55 + base))))"

definition digit_val :: "char \<Rightarrow> nat" where
  "digit_val c =
     (let n = (of_char c :: nat)
      in if 97 \<le> n then n - 87 else if 65 \<le> n then n - 55 else n - 48)"

definition digits_val :: "nat \<Rightarrow> string \<Rightarrow> nat" where
  "digits_val base ds = foldl (\<lambda>a c. base * a + digit_val c) 0 ds"

text \<open>\<open>0x\<close>, \<open>0o\<close> and \<open>0b\<close> literals: a prefix and at least one digit of the base, no sign.\<close>

definition non_decimal :: "string \<Rightarrow> nat option" where
  "non_decimal s =
     (case s of
        z # p # ds \<Rightarrow>
          (let base = (if p = CHR ''x'' \<or> p = CHR ''X'' then 16
                       else if p = CHR ''o'' \<or> p = CHR ''O'' then 8
                       else if p = CHR ''b'' \<or> p = CHR ''B'' then 2 else 0)
           in if z = CHR ''0'' \<and> base \<noteq> 0 \<and> ds \<noteq> [] \<and> list_all (is_digit base) ds
              then Some (digits_val base ds) else None)
      | _ \<Rightarrow> None)"

text \<open>The exponent after \<open>e\<close> or \<open>E\<close>: an optional sign and at least one decimal digit.\<close>

definition signed_integer :: "string \<Rightarrow> int option" where
  "signed_integer s =
     (let neg = (s \<noteq> [] \<and> hd s = CHR ''-'');
          ds = (if s \<noteq> [] \<and> (hd s = CHR ''+'' \<or> hd s = CHR ''-'') then tl s else s)
      in if ds \<noteq> [] \<and> list_all (is_digit 10) ds
         then Some (if neg then - int (digits_val 10 ds) else int (digits_val 10 ds))
         else None)"

text \<open>
  A decimal literal without sign: digits, an optional point and digits, with a digit on
  at least one side of the point, and an optional exponent. The result is its exact value.
\<close>

definition unsigned_decimal :: "string \<Rightarrow> real option" where
  "unsigned_decimal s =
     (let ip = takeWhile (is_digit 10) s;
          r1 = dropWhile (is_digit 10) s;
          dot = (r1 \<noteq> [] \<and> hd r1 = CHR ''.'');
          fp = (if dot then takeWhile (is_digit 10) (tl r1) else []);
          r2 = (if dot then dropWhile (is_digit 10) (tl r1) else r1);
          ex = (if r2 = [] then Some 0
                else if hd r2 = CHR ''e'' \<or> hd r2 = CHR ''E'' then signed_integer (tl r2)
                else None)
      in if ip = [] \<and> fp = [] then None
         else case ex of
                None \<Rightarrow> None
              | Some e \<Rightarrow>
                  Some ((real (digits_val 10 ip) + real (digits_val 10 fp) / 10 ^ length fp)
                        * 10 powi e))"

text \<open>
  The empty string (after trimming) is 0; a string that is no numeric literal is \<open>NaN\<close>;
  \<open>Infinity\<close> may carry a sign; the value of a literal is rounded to a double.
\<close>

definition Number :: "string \<Rightarrow> jsnum" where
  "Number str =
     (let s = trim str
      in if s = [] then Num 0
         else case non_decimal s of
                Some n \<Rightarrow> to_number (real n)
              | None \<Rightarrow>
                  (let neg = (hd s = CHR ''-'');
                       u = (if hd s = CHR ''+'' \<or> hd s = CHR ''-'' then tl s else s)
                   in if u = ''Infinity'' then (if neg then NegInf else PosInf)
                      else case unsigned_decimal u of
                             None \<Rightarrow> NaN
                           | Some x \<Rightarrow> to_number (if neg then - x else x)))"

subsection \<open>Helpers (lines 35 to 53)\<close>

text \<open>
  \<^verbatim>\<open>setter((s) => [...s.slice(-max + 1), point])\<close>: the new contents of the series,
  as a function of the old contents.
\<close>

definition pushSeries :: "Point list \<Rightarrow> Point \<Rightarrow> int \<Rightarrow> Point list" where
  "pushSeries s point mx = slice s (- mx + 1) None @ [point]"

text \<open>
  \<open>genSeed\<close>: the loop \<^verbatim>\<open>for (let i = 0; i < n; i++) out.push(...)\<close>, with the counter
  and the array \<open>out\<close> as arguments. Iteration \<open>i\<close> makes the \<open>i\<close>-th draw. The
  arguments \<open>avg\<close> and \<open>vari\<close> are doubles.
\<close>

function genSeed_loop :: "nat \<Rightarrow> nat \<Rightarrow> real \<Rightarrow> real \<Rightarrow> (nat \<Rightarrow> real) \<Rightarrow> Point list \<Rightarrow> Point list" where
  "genSeed_loop i n avg vari rnd out =
     (if i < n
      then genSeed_loop (i + 1) n avg vari rnd
             (out @ [\<lparr>p_time = show_nat i, p_value = fl (round2 (fl (avg + fl (fl (rnd i - 0.5) * vari))))\<rparr>])
      else out)"
  by pat_completeness auto
termination
  by (relation "measure (\<lambda>(i, n, avg, vari, rnd, out). n - i)") auto

declare genSeed_loop.simps [simp del]

definition genSeed :: "nat \<Rightarrow> real \<Rightarrow> real \<Rightarrow> (nat \<Rightarrow> real) \<Rightarrow> Point list" where
  "genSeed n avg vari rnd = genSeed_loop 0 n avg vari rnd []"

subsection \<open>The component's initial state (lines 60 to 98)\<close>

text \<open>
  The four \<open>useState\<close> initialisers call \<open>genSeed\<close> one after the other, so the second
  series starts at draw 24, the third at draw 48, the fourth at draw 72.
\<close>

definition initSetpoints :: Setpoints where
  "initSetpoints =
     \<lparr>tempHigh = Num 78, flowLow = Num 130, pressHigh = Num (fl 2.4),
      levelLow = Num 20, levelHigh = Num 90\<rparr>"

definition initState :: "(nat \<Rightarrow> real) \<Rightarrow> State" where
  "initState rnd =
     \<lparr>tempSeries = genSeed 24 30 6 rnd,
      flowSeries = genSeed 24 145 30 (\<lambda>i. rnd (24 + i)),
      pressSeries = genSeed 24 (fl 2.1) (fl 0.6) (\<lambda>i. rnd (48 + i)),
      levelSeries = genSeed 24 60 18 (\<lambda>i. rnd (72 + i)),
      tIn = 72, tOut = 30, flow = 150, press = fl 2.1, level = 60,
      pumpOn = True, fanOn = True,
      ethConnected = True, modbusConnected = False,
      alarms = [],
      setpoints = initSetpoints\<rparr>"

subsection \<open>KPIs (lines 101 to 109)\<close>

text \<open>
  The body of the \<open>useMemo\<close>. It reads \<open>tIn\<close> and \<open>tOut\<close> and makes two draws:
  \<open>rnd 0\<close> for the efficiency and \<open>rnd 1\<close> for the COP.
\<close>

definition kpi_efficiency :: "real \<Rightarrow> real" where
  "kpi_efficiency r = max 0.5 (min 0.98 (0.85 - r * 0.12))"

definition kpis :: "real \<Rightarrow> real \<Rightarrow> (nat \<Rightarrow> real) \<Rightarrow> KPIs" where
  "kpis tin tout rnd =
     \<lparr>dt = round2 (tin - tout),
      efficiency = kpi_efficiency (rnd 0),
      cop = round2 (2.5 + rnd 1 * 1.6)\<rparr>"

subsection \<open>The tick (lines 113 to 176)\<close>

text \<open>The six values drawn at lines 117 to 122; draws \<open>rnd 0\<close> to \<open>rnd 4\<close> in this order.\<close>

definition newTIn :: "(nat \<Rightarrow> real) \<Rightarrow> real" where
  "newTIn rnd = fl (70 + fl (rnd 0 * 15))"

definition newTOut :: "(nat \<Rightarrow> real) \<Rightarrow> real" where
  "newTOut rnd = max 15 (fl (newTIn rnd - fl (8 + fl (rnd 1 * 20))))"

definition newTempAvg :: "(nat \<Rightarrow> real) \<Rightarrow> real" where
  "newTempAvg rnd = fl (round2 (fl (fl (newTIn rnd + newTOut rnd) / 2)))"

definition newFlow :: "(nat \<Rightarrow> real) \<Rightarrow> real" where
  "newFlow rnd = fl (round2 (fl (120 + fl (rnd 2 * 60))))"

definition newPress :: "(nat \<Rightarrow> real) \<Rightarrow> real" where
  "newPress rnd = fl (round2 (fl (fl 1.6 + fl (rnd 3 * fl 1.2))))"

definition newLevel :: "(nat \<Rightarrow> real) \<Rightarrow> real" where
  "newLevel rnd = fl (round2 (fl (30 + fl (rnd 4 * 55))))"

text \<open>
  The alarm logic (lines 138 to 168): \<open>newAlarms\<close> starts empty and each of the five
  \<open>if\<close> statements pushes one alarm at its end.
\<close>

definition alta_temperatura :: string where
  "alta_temperatura = ''Alta Temperatura''"

definition baixa_vazao :: string where
  "baixa_vazao = ''Baixa Vaz'' @ [CHR 0xC3, CHR 0xA3] @ ''o''"

definition pressao_elevada :: string where
  "pressao_elevada = ''Press'' @ [CHR 0xC3, CHR 0xA3] @ ''o Elevada''"

definition nivel_baixo :: string where
  "nivel_baixo = ''N'' @ [CHR 0xC3, CHR 0xAD] @ ''vel Baixo''"

definition nivel_alto :: string where
  "nivel_alto = ''N'' @ [CHR 0xC3, CHR 0xAD] @ ''vel Alto''"

definition newAlarms :: "Setpoints \<Rightarrow> string \<Rightarrow> real \<Rightarrow> real \<Rightarrow> real \<Rightarrow> real \<Rightarrow> Alarm list" where
  "newAlarms sp time tempAvg fw pr lv =
     (let a0 = [];
          a1 = (if js_gt (Num tempAvg) (tempHigh sp)
                then a0 @ [\<lparr>a_type = alta_temperatura, a_value = fl (round2 tempAvg), a_time = time\<rparr>]
                else a0);
          a2 = (if js_lt (Num fw) (flowLow sp)
                then a1 @ [\<lparr>a_type = baixa_vazao, a_value = fl (round2 fw), a_time = time\<rparr>]
                else a1);
          a3 = (if js_gt (Num pr) (pressHigh sp)
                then a2 @ [\<lparr>a_type = pressao_elevada, a_value = fl (round2 pr), a_time = time\<rparr>]
                else a2);
          a4 = (if js_lt (Num lv) (levelLow sp)
                then a3 @ [\<lparr>a_type = nivel_baixo, a_value = fl (round2 lv), a_time = time\<rparr>]
                else a3);
          a5 = (if js_gt (Num lv) (levelHigh sp)
                then a4 @ [\<lparr>a_type = nivel_alto, a_value = fl (round2 lv), a_time = time\<rparr>]
                else a4)
      in a5)"

text \<open>The alarms a tick with draws \<open>rnd\<close> and label \<open>time\<close> builds under setpoints \<open>sp\<close>.\<close>

definition tickAlarms :: "Setpoints \<Rightarrow> string \<Rightarrow> (nat \<Rightarrow> real) \<Rightarrow> Alarm list" where
  "tickAlarms sp time rnd =
     newAlarms sp time (newTempAvg rnd) (newFlow rnd) (newPress rnd) (newLevel rnd)"

text \<open>
  The update of the log (lines 170 to 175): \<^verbatim>\<open>[...newAlarms, ...a].slice(0, 40)\<close> when
  \<open>newAlarms.length\<close> is not zero, \<^verbatim>\<open>a.slice(0, 40)\<close> otherwise.
\<close>

definition updateAlarms :: "Alarm list \<Rightarrow> Alarm list \<Rightarrow> Alarm list" where
  "updateAlarms new a =
     (if length new \<noteq> 0 then slice (new @ a) 0 (Some 40) else slice a 0 (Some 40))"

text \<open>One run of the interval callback.\<close>

definition tick :: "string \<Rightarrow> (nat \<Rightarrow> real) \<Rightarrow> State \<Rightarrow> State" where
  "tick time rnd s =
     s\<lparr>tempSeries := pushSeries (tempSeries s) \<lparr>p_time = time, p_value = newTempAvg rnd\<rparr> 40,
       flowSeries := pushSeries (flowSeries s) \<lparr>p_time = time, p_value = newFlow rnd\<rparr> 40,
       pressSeries := pushSeries (pressSeries s) \<lparr>p_time = time, p_value = newPress rnd\<rparr> 40,
       levelSeries := pushSeries (levelSeries s) \<lparr>p_time = time, p_value = newLevel rnd\<rparr> 40,
       tIn := fl (round2 (newTIn rnd)),
       tOut := fl (round2 (newTOut rnd)),
       flow := newFlow rnd,
       press := newPress rnd,
       level := newLevel rnd,
       alarms := updateAlarms (tickAlarms (setpoints s) time rnd) (alarms s)\<rparr>"

subsection \<open>Commands of the presentation layer\<close>

text \<open>
  The \<open>onChange\<close> handlers of the five setpoint inputs (lines 646 to 651 and the four
  like it): \<^verbatim>\<open>setSetpoints((s) => ({ ...s, tempHigh: Number(e.target.value) }))\<close>.
  First the state update, with the number \<open>v\<close> that \<open>Number(e.target.value)\<close> returned;
  then the handler itself, with the text \<open>e.target.value\<close> as its argument.
\<close>

definition onChangeTempHigh :: "jsnum \<Rightarrow> State \<Rightarrow> State" where
  "onChangeTempHigh v s = s\<lparr>setpoints := (setpoints s)\<lparr>tempHigh := v\<rparr>\<rparr>"

definition onChangeFlowLow :: "jsnum \<Rightarrow> State \<Rightarrow> State" where
  "onChangeFlowLow v s = s\<lparr>setpoints := (setpoints s)\<lparr>flowLow := v\<rparr>\<rparr>"

definition onChangePressHigh :: "jsnum \<Rightarrow> State \<Rightarrow> State" where
  "onChangePressHigh v s = s\<lparr>setpoints := (setpoints s)\<lparr>pressHigh := v\<rparr>\<rparr>"

definition onChangeLevelLow :: "jsnum \<Rightarrow> State \<Rightarrow> State" where
  "onChangeLevelLow v s = s\<lparr>setpoints := (setpoints s)\<lparr>levelLow := v\<rparr>\<rparr>"

definition onChangeLevelHigh :: "jsnum \<Rightarrow> State \<Rightarrow> State" where
  "onChangeLevelHigh v s = s\<lparr>setpoints := (setpoints s)\<lparr>levelHigh := v\<rparr>\<rparr>"

definition onChangeTempHighText :: "string \<Rightarrow> State \<Rightarrow> State" where
  "onChangeTempHighText txt s = onChangeTempHigh (Number txt) s"

definition onChangeFlowLowText :: "string \<Rightarrow> State \<Rightarrow> State" where
  "onChangeFlowLowText txt s = onChangeFlowLow (Number txt) s"

definition onChangePressHighText :: "string \<Rightarrow> State \<Rightarrow> State" where
  "onChangePressHighText txt s = onChangePressHigh (Number txt) s"

definition onChangeLevelLowText :: "string \<Rightarrow> State \<Rightarrow> State" where
  "onChangeLevelLowText txt s = onChangeLevelLow (Number txt) s"

definition onChangeLevelHighText :: "string \<Rightarrow> State \<Rightarrow> State" where
  "onChangeLevelHighText txt s = onChangeLevelHigh (Number txt) s"

text \<open>The button "Aplicar" (lines 746 to 751): \<^verbatim>\<open>setAlarms([])\<close> and a message box.\<close>

definition applySetpoints :: "State \<Rightarrow> State" where
  "applySetpoints s = s\<lparr>alarms := []\<rparr>"

text \<open>
  The history reset button (lines 808 to 814): four calls of \<open>genSeed\<close>, one after the
  other, so the draws of the second call start at \<open>rnd 24\<close>, and so on.
\<close>

definition resetHistory :: "(nat \<Rightarrow> real) \<Rightarrow> State \<Rightarrow> State" where
  "resetHistory rnd s =
     s\<lparr>tempSeries := genSeed 24 30 6 rnd,
       flowSeries := genSeed 24 145 30 (\<lambda>i. rnd (24 + i)),
       pressSeries := genSeed 24 (fl 2.1) (fl 0.6) (\<lambda>i. rnd (48 + i)),
       levelSeries := genSeed 24 60 18 (\<lambda>i. rnd (72 + i))\<rparr>"

text \<open>The equipment and connection buttons (lines 440, 465, 516 to 528).\<close>

definition togglePump :: "State \<Rightarrow> State" where
  "togglePump s = s\<lparr>pumpOn := \<not> pumpOn s\<rparr>"

definition toggleFan :: "State \<Rightarrow> State" where
  "toggleFan s = s\<lparr>fanOn := \<not> fanOn s\<rparr>"

definition simulateEth :: "State \<Rightarrow> State" where
  "simulateEth s = s\<lparr>ethConnected := True, modbusConnected := False\<rparr>"

definition simulateModbus :: "State \<Rightarrow> State" where
  "simulateModbus s = s\<lparr>ethConnected := False, modbusConnected := True\<rparr>"

text \<open>Everything that can happen to the state, and a run of the component.\<close>

datatype Event =
    Tick string "nat \<Rightarrow> real"
  | ChangeTempHigh jsnum
  | ChangeFlowLow jsnum
  | ChangePressHigh jsnum
  | ChangeLevelLow jsnum
  | ChangeLevelHigh jsnum
  | ApplySetpoints
  | ResetHistory "nat \<Rightarrow> real"
  | TogglePump
  | ToggleFan
  | SimulateEth
  | SimulateModbus

fun step :: "State \<Rightarrow> Event \<Rightarrow> State" where
  "step s (Tick time rnd) = tick time rnd s"
| "step s (ChangeTempHigh v) = onChangeTempHigh v s"
| "step s (ChangeFlowLow v) = onChangeFlowLow v s"
| "step s (ChangePressHigh v) = onChangePressHigh v s"
| "step s (ChangeLevelLow v) = onChangeLevelLow v s"
| "step s (ChangeLevelHigh v) = onChangeLevelHigh v s"
| "step s ApplySetpoints = applySetpoints s"
| "step s (ResetHistory rnd) = resetHistory rnd s"
| "step s TogglePump = togglePump s"
| "step s ToggleFan = toggleFan s"
| "step s SimulateEth = simulateEth s"
| "step s SimulateModbus = simulateModbus s"

definition run :: "(nat \<Rightarrow> real) \<Rightarrow> Event list \<Rightarrow> State" where
  "run rnd0 evs = foldl step (initState rnd0) evs"

text \<open>A sequence of pushes into one series, with the default capacity of the code.\<close>

definition pushAll :: "Point list \<Rightarrow> Point list \<Rightarrow> Point list" where
  "pushAll s ps = foldl (\<lambda>s p. pushSeries s p 40) s ps"

text \<open>A sequence of ticks, each with its label and its draws.\<close>

definition ticks :: "State \<Rightarrow> (string \<times> (nat \<Rightarrow> real)) list \<Rightarrow> State" where
  "ticks s ts = foldl (\<lambda>s (time, rnd). tick time rnd s) s ts"

section \<open>Properties\<close>

subsection \<open>Rounding to the nearest integer\<close>

lemma rne_int: "rne (of_int k) = k"
  by (simp add: rne_def)

lemma rne_disj:
  "(rne y = \<lfloor>y\<rfloor> \<and> y - of_int \<lfloor>y\<rfloor> \<le> 1 / 2) \<or> (rne y = \<lfloor>y\<rfloor> + 1 \<and> 1 / 2 \<le> y - of_int \<lfloor>y\<rfloor>)"
proof (cases "y - of_int \<lfloor>y\<rfloor> < 1 / 2")
  case True
  then show ?thesis by (simp add: rne_def Let_def)
next
  case False
  show ?thesis
  proof (cases "1 / 2 < y - of_int \<lfloor>y\<rfloor>")
    case True
    with False show ?thesis by (simp add: rne_def Let_def)
  next
    case ff: False
    with False have "y - of_int \<lfloor>y\<rfloor> = 1 / 2" by simp
    then show ?thesis by (cases "even \<lfloor>y\<rfloor>") (simp_all add: rne_def Let_def)
  qed
qed

lemma rne_err: "\<bar>of_int (rne y) - y\<bar> \<le> 1 / 2"
  using rne_disj [of y] by (elim disjE conjE) (simp; linarith)+

lemma rne_mono: "x \<le> y \<Longrightarrow> rne x \<le> rne y"
proof -
  assume xy: "x \<le> y"
  then have fm: "\<lfloor>x\<rfloor> \<le> \<lfloor>y\<rfloor>" by (rule floor_mono)
  show ?thesis
  proof (cases "\<lfloor>x\<rfloor> = \<lfloor>y\<rfloor>")
    case True
    define f where "f = \<lfloor>y\<rfloor>"
    have fx: "\<lfloor>x\<rfloor> = f" using True by (simp add: f_def)
    show ?thesis
    proof (cases "x = y")
      case True then show ?thesis by simp
    next
      case False
      with xy have lt: "x < y" by simp
      have "rne x = f \<or> (rne x = f + 1 \<and> 1 / 2 < y - of_int f)"
        using rne_disj [of x] lt by (auto simp: fx)
      moreover have "1 / 2 < y - of_int f \<Longrightarrow> rne y = f + 1"
        by (simp add: rne_def Let_def f_def)
      moreover have "f \<le> rne y" using rne_disj [of y] by (auto simp: f_def)
      ultimately show ?thesis by auto
    qed
  next
    case False
    with fm have "\<lfloor>x\<rfloor> + 1 \<le> \<lfloor>y\<rfloor>" by simp
    moreover have "rne x \<le> \<lfloor>x\<rfloor> + 1" using rne_disj [of x] by auto
    moreover have "\<lfloor>y\<rfloor> \<le> rne y" using rne_disj [of y] by auto
    ultimately show ?thesis by linarith
  qed
qed

lemma rne_minus: "rne (- y) = - rne y"
proof (cases "of_int \<lfloor>y\<rfloor> = y")
  case True
  then obtain k :: int where k: "y = of_int k" by (rule that [OF sym])
  show ?thesis unfolding k using rne_int [of "- k"] by (simp add: rne_int)
next
  case False
  then have d: "0 < y - of_int \<lfloor>y\<rfloor>" "y - of_int \<lfloor>y\<rfloor> < 1" by linarith+
  have f: "\<lfloor>- y\<rfloor> = - \<lfloor>y\<rfloor> - 1"
    by (rule floor_unique) (use d in simp_all)
  define e where "e = y - of_int \<lfloor>y\<rfloor>"
  have d': "- y - of_int (- \<lfloor>y\<rfloor> - 1) = 1 - e" by (simp add: e_def)
  have ev: "even (- \<lfloor>y\<rfloor> - 1) \<longleftrightarrow> odd \<lfloor>y\<rfloor>" by simp
  show ?thesis
    unfolding rne_def Let_def f d' ev e_def [symmetric]
    using d unfolding e_def [symmetric] by auto
qed

subsection \<open>The binary exponent\<close>

lemma bitlen_0: "bitlen 0 = 0"
  by (subst bitlen.simps) simp

lemma bitlen_pos: "0 < n \<Longrightarrow> bitlen n = Suc (bitlen (n div 2))"
  by (subst bitlen.simps) simp

lemma bitlen_bounds: "0 < n \<Longrightarrow> 2 ^ (bitlen n - 1) \<le> n \<and> n < 2 ^ bitlen n"
proof (induction n rule: bitlen.induct)
  case (1 n)
  show ?case
  proof (cases "n div 2 = 0")
    case True
    with 1 have "n = 1" by (simp add: div_eq_0_iff)
    then show ?thesis by (simp add: bitlen_pos bitlen_0)
  next
    case False
    then have pos: "0 < n div 2" by simp
    from 1 have n0: "n \<noteq> 0" by simp
    from "1.IH" [OF n0 pos] have ih: "2 ^ (bitlen (n div 2) - 1) \<le> n div 2" "n div 2 < 2 ^ bitlen (n div 2)"
      by simp_all
    have bl: "bitlen n = Suc (bitlen (n div 2))" using n0 by (subst bitlen.simps) simp
    have bp: "0 < bitlen (n div 2)" using pos by (subst bitlen.simps) simp
    then obtain k where k: "bitlen (n div 2) = Suc k" by (cases "bitlen (n div 2)") auto
    from ih k have "2 ^ k \<le> n div 2" "n div 2 < 2 * 2 ^ k" by simp_all
    then have "2 * 2 ^ k \<le> n" "n < 2 * (2 * 2 ^ k)" by linarith+
    then show ?thesis by (simp add: bl k)
  qed
qed

lemma expo_bounds:
  assumes "0 < x"
  shows "2 powi expo x \<le> x \<and> x < 2 powi (expo x + 1)"
proof (cases "1 \<le> x")
  case True
  define n where "n = nat \<lfloor>x\<rfloor>"
  define b where "b = bitlen n"
  have n1: "0 < n" using True by (simp add: n_def)
  from bitlen_bounds [OF n1] have bb: "2 ^ (b - 1) \<le> n" "n < 2 ^ b" by (simp_all add: b_def)
  have b1: "0 < b" using n1 by (simp add: b_def bitlen_pos)
  have nx: "real n \<le> x" "x < real n + 1" using True by (simp_all add: n_def)
  have e: "expo x = int b - 1" using True by (simp add: expo_def n_def b_def)
  have p1: "(2::real) powi (int b - 1) = 2 ^ (b - 1)"
    using b1 by (simp add: power_int_def nat_diff_distrib')
  have p2: "(2::real) powi (int b - 1 + 1) = 2 ^ b" by (simp add: power_int_def)
  have "(2::real) ^ (b - 1) \<le> real n" using bb(1) by (metis of_nat_le_iff of_nat_numeral of_nat_power)
  moreover have "real n + 1 \<le> 2 ^ b"
  proof -
    have "n + 1 \<le> 2 ^ b" using bb(2) by simp
    then have "real (n + 1) \<le> real (2 ^ b)" by (rule iffD2 [OF of_nat_le_iff])
    then show ?thesis by simp
  qed
  ultimately show ?thesis using nx unfolding e p1 p2 by linarith
next
  case False
  with assms have x1: "x < 1" by simp
  define y where "y = 1 / x"
  have y1: "1 < y" using assms x1 by (simp add: y_def)
  define m where "m = \<lceil>y\<rceil>"
  have m2: "2 \<le> m" using y1 unfolding m_def by linarith
  define n where "n = nat (m - 1)"
  define b where "b = bitlen n"
  have n1: "0 < n" using m2 by (simp add: n_def)
  from bitlen_bounds [OF n1] have bb: "2 ^ (b - 1) \<le> n" "n < 2 ^ b" by (simp_all add: b_def)
  have b1: "0 < b" using n1 by (simp add: b_def bitlen_pos)
  have my: "real_of_int m - 1 < y" "y \<le> real_of_int m" unfolding m_def by linarith+
  have nm: "real n = real_of_int m - 1" using m2 by (simp add: n_def)
  have e: "expo x = - int b" using False by (simp add: expo_def b_def n_def m_def y_def)
  have lo: "(2::real) ^ (b - 1) \<le> real n" using bb(1) by (metis of_nat_le_iff of_nat_numeral of_nat_power)
  have hi: "real n + 1 \<le> 2 ^ b"
  proof -
    have "n + 1 \<le> 2 ^ b" using bb(2) by simp
    then have "real (n + 1) \<le> real (2 ^ b)" by (rule iffD2 [OF of_nat_le_iff])
    then show ?thesis by simp
  qed
  have ylo: "(2::real) ^ (b - 1) < y" using lo nm my by linarith
  have yhi: "y \<le> 2 ^ b" using hi nm my by linarith
  have xy: "x = 1 / y" using assms by (simp add: y_def)
  have p1: "(2::real) powi (- int b) = 1 / 2 ^ b" by (simp add: power_int_minus_divide)
  have p2: "(2::real) powi (- int b + 1) = 1 / 2 ^ (b - 1)"
  proof -
    obtain k where k: "b = Suc k" using b1 by (cases b) auto
    have "- int b + 1 = - int k" by (simp add: k)
    then have "(2::real) powi (- int b + 1) = 2 powi (- int k)" by simp
    also have "\<dots> = 1 / 2 ^ k" by (simp add: power_int_minus_divide)
    finally show ?thesis by (simp add: k)
  qed
  have "1 / 2 ^ b \<le> 1 / y" using yhi y1 by (simp add: frac_le)
  then have A: "2 powi (- int b) \<le> x" unfolding p1 xy [symmetric] .
  have "1 / y < 1 / 2 ^ (b - 1)" using ylo by (simp add: frac_less2)
  then have B: "x < 2 powi (- int b + 1)" unfolding p2 xy [symmetric] .
  from A B show ?thesis unfolding e by (rule conjI)
qed

lemma expo_unique:
  assumes "0 < x" and "2 powi e \<le> x" and "x < 2 powi (e + 1)"
  shows "expo x = e"
proof -
  from expo_bounds [OF assms(1)] have b: "2 powi expo x \<le> x" "x < 2 powi (expo x + 1)" by simp_all
  have "e < expo x + 1"
  proof (rule ccontr)
    assume "\<not> e < expo x + 1"
    then have "(2::real) powi (expo x + 1) \<le> 2 powi e" by (intro power_int_increasing) simp_all
    with assms(2) b(2) show False by linarith
  qed
  moreover have "expo x < e + 1"
  proof (rule ccontr)
    assume "\<not> expo x < e + 1"
    then have "(2::real) powi (e + 1) \<le> 2 powi expo x" by (intro power_int_increasing) simp_all
    with assms(3) b(1) show False by linarith
  qed
  ultimately show ?thesis by simp
qed

lemma two_powi_add: "(2::real) powi (m + n) = 2 powi m * 2 powi n"
  by (simp add: power_int_add)

lemma expo_mono: "0 < x \<Longrightarrow> x \<le> y \<Longrightarrow> expo x \<le> expo y"
proof -
  assume x: "0 < x" and xy: "x \<le> y"
  then have y: "0 < y" by simp
  from expo_bounds [OF x] expo_bounds [OF y] xy
  have "(2::real) powi expo x < 2 powi (expo y + 1)" by linarith
  then have "expo x < expo y + 1"
    by (metis linorder_not_less power_int_increasing one_le_numeral verit_comp_simplify1(3))
  then show ?thesis by simp
qed

subsection \<open>Rounding to the nearest double\<close>

lemma fl_ulp: "fl x = of_int (rne (x / ulp x)) * ulp x"
  by (simp add: fl_def ulp_def Let_def rne_int [of 0, simplified])

lemma ulp_pos: "0 < ulp x"
  by (simp add: ulp_def)

lemma ulp_minus: "ulp (- x) = ulp x"
  by (simp add: ulp_def)

lemma fl_minus: "fl (- x) = - fl x"
  by (simp add: fl_ulp ulp_minus rne_minus)

lemma fl_0: "fl 0 = 0"
  by (simp add: fl_def)

lemma fl_err: "\<bar>fl x - x\<bar> \<le> ulp x / 2"
proof -
  define u where "u = ulp x"
  define k where "k = real_of_int (rne (x / u))"
  have u: "0 < u" by (simp add: u_def ulp_pos)
  have "\<bar>k - x / u\<bar> \<le> 1 / 2" unfolding k_def by (rule rne_err)
  then have "\<bar>k - x / u\<bar> * u \<le> 1 / 2 * u"
    using u by (intro mult_right_mono) simp_all
  moreover have "\<bar>k - x / u\<bar> * u = \<bar>(k - x / u) * u\<bar>"
    using u by (simp add: abs_mult)
  moreover have "(k - x / u) * u = k * u - x"
    using u by (simp add: left_diff_distrib)
  moreover have "fl x = k * u" by (simp add: fl_ulp k_def u_def)
  ultimately show ?thesis unfolding u_def [symmetric] by simp
qed

lemma fl_nonneg: "0 \<le> x \<Longrightarrow> 0 \<le> fl x"
proof -
  assume "0 \<le> x"
  then have "0 \<le> x / ulp x" using ulp_pos [of x] by simp
  then have "rne 0 \<le> rne (x / ulp x)" by (rule rne_mono)
  then have "0 \<le> rne (x / ulp x)" using rne_int [of 0] by simp
  then show ?thesis using ulp_pos [of x] by (simp add: fl_ulp)
qed

lemma fl_le_pow:
  assumes "0 < x" and "x \<le> 2 powi (a + 1)" and "max (expo x) (- 1022) = a"
  shows "fl x \<le> 2 powi (a + 1)"
proof -
  have u: "ulp x = 2 powi (a - 52)" using assms by (simp add: ulp_def)
  have "(2::real) powi (a + 1) = 2 powi (53 + (a - 52))"
    by (rule arg_cong [where f = "\<lambda>n. 2 powi n"]) simp
  then have p: "(2::real) powi (a + 1) = 2 ^ 53 * 2 powi (a - 52)"
    unfolding two_powi_add by simp
  have "x / ulp x \<le> 2 ^ 53" using assms(2) unfolding u p by (simp add: field_simps)
  then have "rne (x / ulp x) \<le> rne (of_int (2 ^ 53))" by (intro rne_mono) simp
  then have "rne (x / ulp x) \<le> 2 ^ 53" by (simp only: rne_int)
  then have "real_of_int (rne (x / ulp x)) \<le> 2 ^ 53" by (metis of_int_le_iff of_int_numeral of_int_power)
  then have "real_of_int (rne (x / ulp x)) * ulp x \<le> 2 ^ 53 * ulp x"
    using ulp_pos [of x] by (intro mult_right_mono) simp_all
  then show ?thesis unfolding p by (simp only: fl_ulp u)
qed

lemma fl_ge_pow:
  assumes "0 < y" and "2 powi b \<le> y" and "max (expo y) (- 1022) = b"
  shows "2 powi b \<le> fl y"
proof -
  have u: "ulp y = 2 powi (b - 52)" using assms by (simp add: ulp_def)
  have "(2::real) powi b = 2 powi (52 + (b - 52))"
    by (rule arg_cong [where f = "\<lambda>n. 2 powi n"]) simp
  then have p: "(2::real) powi b = 2 ^ 52 * 2 powi (b - 52)"
    unfolding two_powi_add by simp
  have "2 ^ 52 \<le> y / ulp y" using assms(2) unfolding u p by (simp add: field_simps)
  then have "rne (of_int (2 ^ 52)) \<le> rne (y / ulp y)" by (intro rne_mono) simp
  then have "2 ^ 52 \<le> rne (y / ulp y)" by (simp only: rne_int)
  then have "2 ^ 52 \<le> real_of_int (rne (y / ulp y))" by (metis of_int_le_iff of_int_numeral of_int_power)
  then have "2 ^ 52 * ulp y \<le> real_of_int (rne (y / ulp y)) * ulp y"
    using ulp_pos [of y] by (intro mult_right_mono) simp_all
  then show ?thesis unfolding p by (simp only: fl_ulp u)
qed

lemma fl_mono_pos:
  assumes x: "0 < x" and xy: "x \<le> y"
  shows "fl x \<le> fl y"
proof -
  from x xy have y: "0 < y" by simp
  define a where "a = max (expo x) (- 1022)"
  define b where "b = max (expo y) (- 1022)"
  have ab: "a \<le> b" using expo_mono [OF x xy] by (simp add: a_def b_def)
  have ux: "ulp x = 2 powi (a - 52)" using x by (simp add: ulp_def a_def)
  have uy: "ulp y = 2 powi (b - 52)" using y by (simp add: ulp_def b_def)
  show ?thesis
  proof (cases "a = b")
    case True
    then have uu: "ulp x = ulp y" by (simp add: ux uy)
    have "x / ulp y \<le> y / ulp y" using xy ulp_pos [of y] by (simp add: divide_right_mono)
    then have "rne (x / ulp y) \<le> rne (y / ulp y)" by (rule rne_mono)
    then have "real_of_int (rne (x / ulp y)) * ulp y \<le> real_of_int (rne (y / ulp y)) * ulp y"
      using ulp_pos [of y] by (intro mult_right_mono) simp_all
    then show ?thesis by (simp add: fl_ulp uu)
  next
    case False
    with ab have lt: "a + 1 \<le> b" by simp
    then have be: "b = expo y" by (auto simp: a_def b_def)
    have "x < 2 powi (expo x + 1)" using expo_bounds [OF x] by simp
    also have "\<dots> \<le> 2 powi (a + 1)" by (intro power_int_increasing) (simp_all add: a_def)
    finally have "fl x \<le> 2 powi (a + 1)" by (intro fl_le_pow [OF x]) (simp_all add: a_def)
    also have "(2::real) powi (a + 1) \<le> 2 powi b" using lt by (intro power_int_increasing) simp_all
    also have "2 powi b \<le> fl y"
      using expo_bounds [OF y] by (intro fl_ge_pow [OF y]) (simp_all add: be b_def [symmetric])
    finally show ?thesis .
  qed
qed

lemma fl_mono: "x \<le> y \<Longrightarrow> fl x \<le> fl y"
proof -
  assume xy: "x \<le> y"
  consider "0 < x" | "x \<le> 0" "0 \<le> y" | "y < 0" using xy by linarith
  then show ?thesis
  proof cases
    case 1 with xy show ?thesis by (intro fl_mono_pos)
  next
    case 2
    have "0 \<le> fl (- x)" using 2 by (intro fl_nonneg) simp
    then have "fl x \<le> 0" by (simp add: fl_minus)
    moreover have "0 \<le> fl y" using 2 by (intro fl_nonneg)
    ultimately show ?thesis by simp
  next
    case 3
    then have "fl (- y) \<le> fl (- x)" using xy by (intro fl_mono_pos) simp_all
    then show ?thesis by (simp add: fl_minus)
  qed
qed

lemma fl_err_rel:
  assumes "2 powi (- 1022) \<le> \<bar>x\<bar>"
  shows "\<bar>fl x - x\<bar> \<le> \<bar>x\<bar> / 2 ^ 53"
proof -
  have pos: "0 < \<bar>x\<bar>" using assms by (smt (verit) zero_less_power_int)
  have "(2::real) powi (- 1022) < 2 powi (expo \<bar>x\<bar> + 1)"
    using expo_bounds [OF pos] assms by linarith
  then have "- 1022 < expo \<bar>x\<bar> + 1"
    by (metis linorder_not_less power_int_increasing one_le_numeral verit_comp_simplify1(3))
  then have u: "ulp x = 2 powi (expo \<bar>x\<bar> - 52)" by (simp add: ulp_def max_def)
  have "(2::real) powi expo \<bar>x\<bar> = 2 powi (52 + (expo \<bar>x\<bar> - 52))"
    by (rule arg_cong [where f = "\<lambda>n. 2 powi n"]) simp
  then have "(2::real) powi expo \<bar>x\<bar> = 2 ^ 52 * 2 powi (expo \<bar>x\<bar> - 52)"
    unfolding two_powi_add by simp
  with expo_bounds [OF pos] have "2 ^ 52 * ulp x \<le> \<bar>x\<bar>" by (simp add: u)
  then have "ulp x / 2 \<le> \<bar>x\<bar> / 2 ^ 53" by (simp add: field_simps)
  with fl_err [of x] show ?thesis by linarith
qed

text \<open>The facts that evaluate \<open>fl\<close> and \<open>round2\<close> at a numeral.\<close>

lemmas ev = fl_def expo_def rne_def Let_def bitlen.simps round2_def

text \<open>The largest double below 1 is \<open>1 - 2^-53\<close>.\<close>

lemma draw_max:
  assumes "fl r = r" and "0 \<le> r" and "r < 1"
  shows "r \<le> 1 - 1 / 2 ^ 53"
proof (cases "r < 1 / 2")
  case True
  then show ?thesis by simp
next
  case False
  then have r: "0 < \<bar>r\<bar>" "(2::real) powi (- 1) \<le> \<bar>r\<bar>" "\<bar>r\<bar> < 2 powi (- 1 + 1)"
    using assms by (simp_all add: power_int_minus_divide)
  have e: "expo \<bar>r\<bar> = - 1" by (rule expo_unique [OF r])
  have u: "ulp r = 1 / 2 ^ 53" by (simp add: ulp_def e power_int_minus_divide)
  define k where "k = rne (r / ulp r)"
  define c :: int where "c = 2 ^ 53"
  have c: "real_of_int c = 2 ^ 53" by (simp add: c_def)
  have "fl r = of_int k * ulp r" by (simp add: fl_ulp k_def)
  then have rk: "r = of_int k / of_int c" using assms(1) by (simp add: u c)
  have cpos: "0 < real_of_int c" by (simp add: c)
  from rk assms(3) cpos have "real_of_int k < real_of_int c" by (simp add: divide_less_eq)
  then have "k \<le> c - 1" by simp
  then have "real_of_int k \<le> real_of_int c - 1" by (metis of_int_le_iff of_int_diff of_int_1)
  then have "real_of_int k / real_of_int c \<le> (real_of_int c - 1) / real_of_int c"
    using cpos by (simp add: divide_right_mono)
  also have "\<dots> = 1 - 1 / real_of_int c" using cpos by (simp add: diff_divide_distrib)
  finally show ?thesis unfolding rk c .
qed

subsection \<open>Library functions\<close>

lemma slice_0_40: "slice xs 0 (Some 40) = take 40 xs"
  by (simp add: slice_def Let_def min_def)

text \<open>Rounding to 2 decimals gives a multiple of \<open>1 / 100\<close> at most \<open>1 / 200\<close> away.\<close>

lemma round2_near:
  assumes "\<bar>x\<bar> < 10 ^ 21"
  shows "\<bar>round2 x - x\<bar> \<le> 1 / 200 \<and> (\<exists>n::int. round2 x = of_int n / 100)"
proof (cases "x < 0")
  case True
  define n where "n = \<lfloor>(- x) * 100 + 1 / 2\<rfloor>"
  have r: "round2 x = of_int (- n) / 100" using assms True by (simp add: round2_def n_def)
  have "of_int n \<le> (- x) * 100 + 1 / 2" "(- x) * 100 + 1 / 2 < of_int n + 1"
    unfolding n_def by linarith+
  then have "- (1 / 200) \<le> of_int (- n) / 100 - x" "of_int (- n) / 100 - x \<le> 1 / 200"
    by simp_all
  then have "\<bar>of_int (- n) / 100 - x\<bar> \<le> 1 / 200" by linarith
  with r show ?thesis by metis
next
  case False
  define n where "n = \<lfloor>x * 100 + 1 / 2\<rfloor>"
  have r: "round2 x = of_int n / 100" using assms False by (simp add: round2_def n_def)
  have "of_int n \<le> x * 100 + 1 / 2" "x * 100 + 1 / 2 < of_int n + 1"
    unfolding n_def by linarith+
  then have "- (1 / 200) \<le> of_int n / 100 - x" "of_int n / 100 - x \<le> 1 / 200"
    by simp_all
  then have "\<bar>of_int n / 100 - x\<bar> \<le> 1 / 200" by linarith
  with r show ?thesis by metis
qed

subsection \<open>Alarm rules\<close>

lemma newAlarms_append:
  "newAlarms sp time tempAvg fw pr lv =
     (if js_gt (Num tempAvg) (tempHigh sp)
      then [\<lparr>a_type = alta_temperatura, a_value = fl (round2 tempAvg), a_time = time\<rparr>] else [])
   @ (if js_lt (Num fw) (flowLow sp)
      then [\<lparr>a_type = baixa_vazao, a_value = fl (round2 fw), a_time = time\<rparr>] else [])
   @ (if js_gt (Num pr) (pressHigh sp)
      then [\<lparr>a_type = pressao_elevada, a_value = fl (round2 pr), a_time = time\<rparr>] else [])
   @ (if js_lt (Num lv) (levelLow sp)
      then [\<lparr>a_type = nivel_baixo, a_value = fl (round2 lv), a_time = time\<rparr>] else [])
   @ (if js_gt (Num lv) (levelHigh sp)
      then [\<lparr>a_type = nivel_alto, a_value = fl (round2 lv), a_time = time\<rparr>] else [])"
  by (simp add: newAlarms_def Let_def)

lemma length_tickAlarms: "length (tickAlarms sp time rnd) \<le> 5"
  by (simp add: tickAlarms_def newAlarms_append)

lemma tick_alarms:
  "alarms (tick time rnd s) = take 40 (tickAlarms (setpoints s) time rnd @ alarms s)"
  by (simp add: tick_def updateAlarms_def slice_0_40)

lemmas readings = newTempAvg_def newTIn_def newTOut_def newFlow_def newPress_def newLevel_def

text \<open>
  C1. The alarms of a tick are the concatenation, in the order of the five rules, of one
  alarm for each rule that holds of the tick's readings and the current setpoints: (1)
  \<open>tempAvg > tempHigh\<close>, (2) \<open>flow < flowLow\<close>, (3) \<open>press > pressHigh\<close>, (4)
  \<open>level < levelLow\<close>, (5) \<open>level > levelHigh\<close>. The alarm's value is the reading
  rounded to 2 decimals, \<open>Number(x.toFixed(2))\<close>, where the decimal chosen by \<open>toFixed\<close>
  is a multiple of \<open>1 / 100\<close> at most \<open>1 / 200\<close> away from the reading; its time is the
  label of the tick. On an empty log these alarms are the log after the tick. With the
  setpoints 78, 130, 2.4, 20, 90, a tick whose readings are \<open>tempAvg = 80\<close>,
  \<open>flow = 140\<close>, \<open>press = 2.0\<close>, \<open>level = 50\<close> gives the single alarm
  "Alta Temperatura" with value 80.
\<close>

theorem alarm_rules:
  "tickAlarms sp time rnd =
     (if js_gt (Num (newTempAvg rnd)) (tempHigh sp)
      then [\<lparr>a_type = ''Alta Temperatura'', a_value = fl (round2 (newTempAvg rnd)),
             a_time = time\<rparr>] else [])
   @ (if js_lt (Num (newFlow rnd)) (flowLow sp)
      then [\<lparr>a_type = baixa_vazao, a_value = fl (round2 (newFlow rnd)), a_time = time\<rparr>] else [])
   @ (if js_gt (Num (newPress rnd)) (pressHigh sp)
      then [\<lparr>a_type = pressao_elevada, a_value = fl (round2 (newPress rnd)), a_time = time\<rparr>]
      else [])
   @ (if js_lt (Num (newLevel rnd)) (levelLow sp)
      then [\<lparr>a_type = nivel_baixo, a_value = fl (round2 (newLevel rnd)), a_time = time\<rparr>] else [])
   @ (if js_gt (Num (newLevel rnd)) (levelHigh sp)
      then [\<lparr>a_type = nivel_alto, a_value = fl (round2 (newLevel rnd)), a_time = time\<rparr>] else [])
   \<and> (\<bar>x\<bar> < 10 ^ 21 \<longrightarrow>
        \<bar>round2 x - x\<bar> \<le> 1 / 200 \<and> (\<exists>n::int. round2 x = of_int n / 100))
   \<and> alarms (tick time rnd (s\<lparr>alarms := []\<rparr>)) = tickAlarms (setpoints s) time rnd
   \<and> (newTempAvg rnd = 80 \<and> newFlow rnd = 140 \<and> newPress rnd = 2.0 \<and> newLevel rnd = 50 \<longrightarrow>
        tickAlarms \<lparr>tempHigh = Num 78, flowLow = Num 130, pressHigh = Num (fl 2.4),
                    levelLow = Num 20, levelHigh = Num 90\<rparr> time rnd
        = [\<lparr>a_type = ''Alta Temperatura'', a_value = 80, a_time = time\<rparr>])"
proof -
  have rules: "tickAlarms sp time rnd =
     (if js_gt (Num (newTempAvg rnd)) (tempHigh sp)
      then [\<lparr>a_type = ''Alta Temperatura'', a_value = fl (round2 (newTempAvg rnd)),
             a_time = time\<rparr>] else [])
   @ (if js_lt (Num (newFlow rnd)) (flowLow sp)
      then [\<lparr>a_type = baixa_vazao, a_value = fl (round2 (newFlow rnd)), a_time = time\<rparr>] else [])
   @ (if js_gt (Num (newPress rnd)) (pressHigh sp)
      then [\<lparr>a_type = pressao_elevada, a_value = fl (round2 (newPress rnd)), a_time = time\<rparr>]
      else [])
   @ (if js_lt (Num (newLevel rnd)) (levelLow sp)
      then [\<lparr>a_type = nivel_baixo, a_value = fl (round2 (newLevel rnd)), a_time = time\<rparr>] else [])
   @ (if js_gt (Num (newLevel rnd)) (levelHigh sp)
      then [\<lparr>a_type = nivel_alto, a_value = fl (round2 (newLevel rnd)), a_time = time\<rparr>] else [])"
    for sp
    unfolding tickAlarms_def newAlarms_append by (simp add: alta_temperatura_def)
  have near: "\<bar>x\<bar> < 10 ^ 21 \<longrightarrow>
        \<bar>round2 x - x\<bar> \<le> 1 / 200 \<and> (\<exists>n::int. round2 x = of_int n / 100)"
    using round2_near [of x] by blast
  have logged: "alarms (tick time rnd (s\<lparr>alarms := []\<rparr>)) = tickAlarms (setpoints s) time rnd"
    using length_tickAlarms [of "setpoints s" time rnd] by (simp add: tick_alarms)
  have c: "\<not> fl 2.4 < 2" "fl 80 = 80" "round2 80 = 80"
    by (simp_all add: ev)
  have example: "tickAlarms \<lparr>tempHigh = Num 78, flowLow = Num 130, pressHigh = Num (fl 2.4),
                    levelLow = Num 20, levelHigh = Num 90\<rparr> time rnd
        = [\<lparr>a_type = ''Alta Temperatura'', a_value = 80, a_time = time\<rparr>]"
    if "newTempAvg rnd = 80" "newFlow rnd = 140" "newPress rnd = 2.0" "newLevel rnd = 50"
    unfolding rules using that c by (simp add: js_gt_def)
  from rules [of sp] near logged example show ?thesis by blast
qed

theorem alarm_rules_witness:
  "newTempAvg (\<lambda>i. if i = 0 then 3823 / 4096 else if i = 1 then 0 else if i = 2 then 1365 / 4096
                    else if i = 3 then 1365 / 4096 else 2979 / 8192) = 80
   \<and> newFlow (\<lambda>i. if i = 0 then 3823 / 4096 else if i = 1 then 0 else if i = 2 then 1365 / 4096
                    else if i = 3 then 1365 / 4096 else 2979 / 8192) = 140
   \<and> newPress (\<lambda>i. if i = 0 then 3823 / 4096 else if i = 1 then 0 else if i = 2 then 1365 / 4096
                    else if i = 3 then 1365 / 4096 else 2979 / 8192) = 2.0
   \<and> newLevel (\<lambda>i. if i = 0 then 3823 / 4096 else if i = 1 then 0 else if i = 2 then 1365 / 4096
                    else if i = 3 then 1365 / 4096 else 2979 / 8192) = 50
   \<and> \<bar>80.000244140625 :: real\<bar> < 10 ^ 21
   \<and> \<bar>round2 80.000244140625 - 80.000244140625\<bar> \<le> 1 / 200
   \<and> tickAlarms initSetpoints ''10:15:00''
        (\<lambda>i. if i = 0 then 3823 / 4096 else if i = 1 then 0 else if i = 2 then 1365 / 4096
              else if i = 3 then 1365 / 4096 else 2979 / 8192)
      = [\<lparr>a_type = ''Alta Temperatura'', a_value = 80, a_time = ''10:15:00''\<rparr>]"
proof -
  let ?d = "\<lambda>i::nat. if i = 0 then 3823 / 4096 else if i = 1 then 0 else if i = 2 then 1365 / 4096
                    else if i = 3 then 1365 / 4096 else (2979 / 8192 :: real)"
  have t: "newTempAvg ?d = 80" by (simp add: readings ev)
  have f: "newFlow ?d = 140" by (simp add: readings ev)
  have p: "newPress ?d = 2.0" by (simp add: readings ev)
  have l: "newLevel ?d = 50" by (simp add: readings ev)
  have b: "\<bar>80.000244140625 :: real\<bar> < 10 ^ 21" by simp
  note inst = alarm_rules [of initSetpoints "''10:15:00''" ?d "80.000244140625"
      "initState (\<lambda>i. 1 / 2)"]
  from inst b have n: "\<bar>round2 80.000244140625 - 80.000244140625\<bar> \<le> 1 / 200" by blast
  from inst t f p l
  have a: "tickAlarms \<lparr>tempHigh = Num 78, flowLow = Num 130, pressHigh = Num (fl 2.4),
                    levelLow = Num 20, levelHigh = Num 90\<rparr> ''10:15:00'' ?d
        = [\<lparr>a_type = ''Alta Temperatura'', a_value = 80, a_time = ''10:15:00''\<rparr>]"
    by blast
  from t f p l b n a show ?thesis by (simp only: initSetpoints_def simp_thms)
qed

subsection \<open>The alarm log\<close>

lemma step_alarms_bound: "length (alarms s) \<le> 40 \<Longrightarrow> length (alarms (step s ev)) \<le> 40"
  by (cases ev)
     (simp_all add: tick_alarms onChangeTempHigh_def onChangeFlowLow_def onChangePressHigh_def
        onChangeLevelLow_def onChangeLevelHigh_def applySetpoints_def resetHistory_def
        togglePump_def toggleFan_def simulateEth_def simulateModbus_def)

lemma foldl_step_alarms_bound:
  "length (alarms s) \<le> 40 \<Longrightarrow> length (alarms (foldl step s evs)) \<le> 40"
  by (induction evs arbitrary: s) (simp_all add: step_alarms_bound)

text \<open>
  The log starts empty and every operation keeps it within 40 entries, so in every state
  the component can reach the log has at most 40 entries.
\<close>

lemma run_alarms_bound: "length (alarms (run rnd0 evs)) \<le> 40"
  unfolding run_def by (rule foldl_step_alarms_bound) (simp add: initState_def)

text \<open>
  C3. Let the log before a tick have at most 40 entries, as it has in every state the
  component reaches (\<open>run_alarms_bound\<close>). If no rule fires, the tick leaves the log as
  it is. Otherwise the log after the tick is the tick's alarms, in rule order, followed by
  the first entries of the old log, as many as fit into 40: the entries dropped are the
  last ones of the old log, its oldest. In both cases the log has at most 40 entries.
\<close>

theorem alarm_log_update:
  assumes "length (alarms s) \<le> 40"
  shows "alarms (tick time rnd s) =
           (if tickAlarms (setpoints s) time rnd = [] then alarms s
            else tickAlarms (setpoints s) time rnd
                 @ take (40 - length (tickAlarms (setpoints s) time rnd)) (alarms s))
       \<and> alarms (tick time rnd s) = take 40 (tickAlarms (setpoints s) time rnd @ alarms s)
       \<and> length (alarms (tick time rnd s)) \<le> 40"
proof -
  let ?new = "tickAlarms (setpoints s) time rnd"
  have n: "length ?new \<le> 5" by (rule length_tickAlarms)
  have t: "alarms (tick time rnd s) = take 40 (?new @ alarms s)" by (rule tick_alarms)
  have "take 40 (?new @ alarms s) = ?new @ take (40 - length ?new) (alarms s)"
    using n by simp
  moreover have "take 40 (alarms s) = alarms s"
    using assms by simp
  ultimately show ?thesis
    unfolding t by (cases "?new = []") simp_all
qed

theorem alarm_log_update_witness:
  "length (alarms ((initState (\<lambda>i. 1 / 2))
      \<lparr>alarms := map (\<lambda>i. \<lparr>a_type = ''old'', a_value = real i, a_time = show_nat i\<rparr>) [0..<40]\<rparr>))
     \<le> 40
   \<and> alarms (tick ''10:15:00''
        (\<lambda>i. if i = 0 then 3823 / 4096 else if i = 1 then 0 else if i = 2 then 1 / 8
              else if i = 3 then 1365 / 4096 else 2979 / 8192)
        ((initState (\<lambda>i. 1 / 2))
          \<lparr>alarms := map (\<lambda>i. \<lparr>a_type = ''old'', a_value = real i, a_time = show_nat i\<rparr>) [0..<40]\<rparr>))
      = [\<lparr>a_type = ''Alta Temperatura'', a_value = 80, a_time = ''10:15:00''\<rparr>,
         \<lparr>a_type = baixa_vazao, a_value = 127.5, a_time = ''10:15:00''\<rparr>]
        @ map (\<lambda>i. \<lparr>a_type = ''old'', a_value = real i, a_time = show_nat i\<rparr>) [0..<38]
   \<and> alarms (tick ''10:15:02'' (\<lambda>i. 1 / 2)
        ((initState (\<lambda>i. 1 / 2))
          \<lparr>alarms := map (\<lambda>i. \<lparr>a_type = ''old'', a_value = real i, a_time = show_nat i\<rparr>) [0..<40]\<rparr>))
      = map (\<lambda>i. \<lparr>a_type = ''old'', a_value = real i, a_time = show_nat i\<rparr>) [0..<40]"
proof -
  let ?d = "\<lambda>i::nat. if i = 0 then 3823 / 4096 else if i = 1 then 0 else if i = 2 then 1 / 8
                    else if i = 3 then 1365 / 4096 else (2979 / 8192 :: real)"
  let ?f = "\<lambda>i. \<lparr>a_type = ''old'', a_value = real i, a_time = show_nat i\<rparr>"
  let ?s = "(initState (\<lambda>i. 1 / 2))\<lparr>alarms := map ?f [0..<40]\<rparr>"
  have old: "alarms ?s = map ?f [0..<40]" by simp
  have len: "length (alarms ?s) \<le> 40" by simp
  have sp: "setpoints ?s = initSetpoints" by (simp add: initState_def)
  have r: "newTempAvg ?d = 80" "newFlow ?d = 127.5" "newPress ?d = 2" "newLevel ?d = 50"
    by (simp_all add: readings ev)
  have q: "newTempAvg (\<lambda>i. 1 / 2) = 68.5" "newFlow (\<lambda>i. 1 / 2) = 150"
    "newPress (\<lambda>i. 1 / 2) = fl 2.2" "newLevel (\<lambda>i. 1 / 2) = 57.5"
    by (simp_all add: readings ev)
  have c: "\<not> fl 2.4 < 2" "\<not> fl 2.4 < fl 2.2" "fl 80 = 80" "round2 80 = 80"
    "fl (round2 127.5) = 127.5"
    by (simp_all add: ev)
  have fired: "tickAlarms initSetpoints ''10:15:00'' ?d
      = [\<lparr>a_type = ''Alta Temperatura'', a_value = 80, a_time = ''10:15:00''\<rparr>,
         \<lparr>a_type = baixa_vazao, a_value = 127.5, a_time = ''10:15:00''\<rparr>]"
    unfolding tickAlarms_def newAlarms_append r using c
    by (simp add: initSetpoints_def js_gt_def alta_temperatura_def)
  have quiet: "tickAlarms initSetpoints ''10:15:02'' (\<lambda>i. 1 / 2) = []"
    unfolding tickAlarms_def newAlarms_append q using c
    by (simp add: initSetpoints_def js_gt_def)
  have tk: "take 38 (map ?f [0..<40]) = map ?f [0..<38]"
    by (simp only: take_map take_upt) simp
  from alarm_log_update [OF len, of "''10:15:00''" ?d]
  have a: "alarms (tick ''10:15:00'' ?d ?s)
      = [\<lparr>a_type = ''Alta Temperatura'', a_value = 80, a_time = ''10:15:00''\<rparr>,
         \<lparr>a_type = baixa_vazao, a_value = 127.5, a_time = ''10:15:00''\<rparr>]
        @ map ?f [0..<38]"
    unfolding sp fired old using tk by simp
  from alarm_log_update [OF len, of "''10:15:02''" "\<lambda>i. 1 / 2"]
  have b: "alarms (tick ''10:15:02'' (\<lambda>i. 1 / 2) ?s) = map ?f [0..<40]"
    unfolding sp quiet old by simp
  from len a b show ?thesis by (intro conjI)
qed

subsection \<open>Series buffers\<close>

lemma pushSeries_40: "pushSeries s p 40 = drop (length s - 39) s @ [p]"
  by (simp add: pushSeries_def slice_def Let_def max_def nat_diff_distrib')

lemma length_pushSeries_40: "length (pushSeries s p 40) = min (length s) 39 + 1"
  by (simp add: pushSeries_40 min_def)

lemma pushAll_Nil: "pushAll s [] = s"
  by (simp add: pushAll_def)

lemma pushAll_Cons: "pushAll s (p # ps) = pushAll (pushSeries s p 40) ps"
  by (simp add: pushAll_def)

text \<open>
  After any pushes into a series of at most 40 points, the series is what is left of the old
  contents followed by the pushed points when all but the last 40 are dropped.
\<close>

lemma pushAll_drop:
  "length s \<le> 40 \<Longrightarrow> pushAll s ps = drop (length s + length ps - 40) (s @ ps)"
proof (induction ps arbitrary: s)
  case Nil
  then show ?case by (simp add: pushAll_Nil)
next
  case (Cons p ps)
  have len: "length (pushSeries s p 40) \<le> 40"
    by (simp add: length_pushSeries_40)
  show ?case
  proof (cases "length s \<le> 39")
    case True
    then have "pushSeries s p 40 = s @ [p]" by (simp add: pushSeries_40)
    with Cons.IH [OF len] show ?thesis by (simp add: pushAll_Cons)
  next
    case False
    with Cons.prems have l: "length s = 40" by simp
    then have eq: "pushSeries s p 40 = drop 1 s @ [p]" by (simp add: pushSeries_40)
    have "pushAll s (p # ps) = drop (length ps) (drop 1 s @ [p] @ ps)"
      using Cons.IH [OF len] l by (simp add: pushAll_Cons eq)
    also have "drop 1 s @ [p] @ ps = drop 1 (s @ p # ps)"
      using l by (cases s) simp_all
    finally show ?thesis using l by (simp add: add.commute)
  qed
qed

text \<open>
  C2. Start from a series of at most 40 points and push the points \<open>ps\<close> one after the
  other. The series has at most 40 points at the end and after every prefix of the pushes
  (\<open>take n ps\<close>), and when \<open>40 + k\<close> points were pushed it is exactly the last 40 of them,
  in the order they were pushed.
\<close>

theorem series_buffer_bound:
  assumes "length s \<le> 40"
  shows "length (pushAll s ps) \<le> 40
       \<and> length (pushAll s (take n ps)) \<le> 40
       \<and> (length ps = 40 + k \<longrightarrow> pushAll s ps = drop k ps \<and> length (pushAll s ps) = 40)"
  using assms by (auto simp: pushAll_drop)

theorem series_buffer_bound_witness:
  "length [\<lparr>p_time = ''0'', p_value = 30\<rparr>] \<le> 40
   \<and> length (map (\<lambda>i. \<lparr>p_time = show_nat i, p_value = real i\<rparr>) [0..<42]) = 40 + 2
   \<and> pushAll [\<lparr>p_time = ''0'', p_value = 30\<rparr>]
        (map (\<lambda>i. \<lparr>p_time = show_nat i, p_value = real i\<rparr>) [0..<42])
      = map (\<lambda>i. \<lparr>p_time = show_nat i, p_value = real i\<rparr>) [2..<42]"
proof -
  let ?s = "[\<lparr>p_time = ''0'', p_value = 30\<rparr>]"
  let ?f = "\<lambda>i. \<lparr>p_time = show_nat i, p_value = real i\<rparr>"
  have len: "length ?s \<le> 40" by simp
  have pushed: "length (map ?f [0..<42]) = 40 + 2" by simp
  from series_buffer_bound [OF len, of "map ?f [0..<42]" 0 2] pushed
  have "pushAll ?s (map ?f [0..<42]) = drop 2 (map ?f [0..<42])" by blast
  also have "drop 2 (map ?f [0..<42]) = map ?f [2..<42]"
    by (simp only: drop_map drop_upt add_0)
  finally have "pushAll ?s (map ?f [0..<42]) = map ?f [2..<42]" .
  with len pushed show ?thesis by (intro conjI)
qed

subsection \<open>Seed data\<close>

lemma genSeed_loop_map:
  "genSeed_loop i n avg vari rnd out =
     out @ map (\<lambda>i. \<lparr>p_time = show_nat i,
                      p_value = fl (round2 (fl (avg + fl (fl (rnd i - 0.5) * vari))))\<rparr>) [i..<n]"
proof (induction i n avg vari rnd out rule: genSeed_loop.induct)
  case (1 i n avg vari rnd out)
  show ?case
  proof (cases "i < n")
    case True
    then have "[i..<n] = i # [Suc i..<n]" by (simp add: upt_conv_Cons)
    with True "1.IH" show ?thesis by (subst genSeed_loop.simps) simp
  next
    case False
    then show ?thesis by (subst genSeed_loop.simps) simp
  qed
qed

lemma genSeed_map:
  "genSeed n avg vari rnd =
     map (\<lambda>i. \<lparr>p_time = show_nat i,
                p_value = fl (round2 (fl (avg + fl (fl (rnd i - 0.5) * vari))))\<rparr>) [0..<n]"
  by (simp add: genSeed_def genSeed_loop_map)

lemma length_genSeed: "length (genSeed n avg vari rnd) = n"
  by (simp add: genSeed_map)

text \<open>
  The value before the rounding to 2 decimals lies between the doubles nearest to
  \<open>avg - vari / 2\<close> and \<open>avg + vari / 2\<close>, both ends included.
\<close>

lemma seed_value_bounds:
  assumes "0 \<le> r" and "r < 1" and "0 \<le> vari"
  shows "fl (avg - fl (vari / 2)) \<le> fl (avg + fl (fl (r - 0.5) * vari))
       \<and> fl (avg + fl (fl (r - 0.5) * vari)) \<le> fl (avg + fl (vari / 2))"
proof -
  have h: "fl (1 / 2) = 1 / 2" by (simp add: ev)
  have "fl (- (1 / 2)) \<le> fl (r - 0.5)" using assms by (intro fl_mono) simp
  moreover have "fl (r - 0.5) \<le> fl (1 / 2)" using assms by (intro fl_mono) simp
  ultimately have d: "- (1 / 2) \<le> fl (r - 0.5)" "fl (r - 0.5) \<le> 1 / 2"
    by (simp_all add: fl_minus h)
  have "- (1 / 2) * vari \<le> fl (r - 0.5) * vari" using d(1) assms(3) by (rule mult_right_mono)
  then have "fl (- (vari / 2)) \<le> fl (fl (r - 0.5) * vari)" by (intro fl_mono) simp
  moreover have "fl (r - 0.5) * vari \<le> 1 / 2 * vari" using d(2) assms(3) by (rule mult_right_mono)
  then have "fl (fl (r - 0.5) * vari) \<le> fl (vari / 2)" by (intro fl_mono) simp
  ultimately have p: "- fl (vari / 2) \<le> fl (fl (r - 0.5) * vari)"
    "fl (fl (r - 0.5) * vari) \<le> fl (vari / 2)"
    by (simp_all add: fl_minus)
  have "fl (avg - fl (vari / 2)) \<le> fl (avg + fl (fl (r - 0.5) * vari))"
    using p by (intro fl_mono) simp
  moreover have "fl (avg + fl (fl (r - 0.5) * vari)) \<le> fl (avg + fl (vari / 2))"
    using p by (intro fl_mono) simp
  ultimately show ?thesis by simp
qed

text \<open>
  C5, as the claim states it, fails: at startup and after a history reset each series has
  24 points, not 40.
\<close>

theorem seed_length_counterexample:
  "length (tempSeries (initState (\<lambda>i. 1 / 2))) = 24
   \<and> length (tempSeries (resetHistory (\<lambda>i. 1 / 2) (initState (\<lambda>i. 1 / 2)))) = 24
   \<and> length (genSeed 24 30 6 (\<lambda>i. 1 / 2)) \<noteq> 40"
  by (simp add: initState_def resetHistory_def length_genSeed)

text \<open>
  C5, amended. \<open>genSeed n avg vari\<close> produces exactly \<open>n\<close> points. Point \<open>i\<close> is labelled
  with the decimal digits of \<open>i\<close>; its value is \<open>avg + (r - 0.5) * vari\<close>, computed in
  double arithmetic from the \<open>i\<close>-th draw \<open>r\<close>, rounded to 2 decimals by
  \<open>Number(x.toFixed(2))\<close>. For a draw in \<open>[0, 1)\<close> and \<open>vari\<close> not negative the value
  before that rounding lies between the doubles nearest to \<open>avg - vari / 2\<close> and
  \<open>avg + vari / 2\<close>, both ends included, and the decimal chosen by \<open>toFixed\<close> is a multiple
  of \<open>1 / 100\<close> at most \<open>1 / 200\<close> away from it. At startup and on a history reset \<open>n\<close> is
  24, so each of the four series gets 24 points.
\<close>

theorem seed_points:
  "genSeed n avg vari rnd =
     map (\<lambda>i. \<lparr>p_time = show_nat i,
                p_value = fl (round2 (fl (avg + fl (fl (rnd i - 0.5) * vari))))\<rparr>) [0..<n]
   \<and> length (genSeed n avg vari rnd) = n
   \<and> (i < n \<longrightarrow>
        p_time (genSeed n avg vari rnd ! i) = show_nat i
        \<and> p_value (genSeed n avg vari rnd ! i)
            = fl (round2 (fl (avg + fl (fl (rnd i - 0.5) * vari)))))
   \<and> (0 \<le> rnd i \<and> rnd i < 1 \<and> 0 \<le> vari \<longrightarrow>
        fl (avg - fl (vari / 2)) \<le> fl (avg + fl (fl (rnd i - 0.5) * vari))
        \<and> fl (avg + fl (fl (rnd i - 0.5) * vari)) \<le> fl (avg + fl (vari / 2)))
   \<and> (i < n \<and> 0 \<le> rnd i \<and> rnd i < 1 \<and> 0 \<le> vari \<longrightarrow>
        (\<exists>u. p_value (genSeed n avg vari rnd ! i) = fl (round2 u)
           \<and> fl (avg - fl (vari / 2)) \<le> u \<and> u \<le> fl (avg + fl (vari / 2))))
   \<and> (\<bar>fl (avg + fl (fl (rnd i - 0.5) * vari))\<bar> < 10 ^ 21 \<longrightarrow>
        \<bar>round2 (fl (avg + fl (fl (rnd i - 0.5) * vari))) - fl (avg + fl (fl (rnd i - 0.5) * vari))\<bar>
          \<le> 1 / 200
        \<and> (\<exists>k::int. round2 (fl (avg + fl (fl (rnd i - 0.5) * vari))) = of_int k / 100))
   \<and> length (tempSeries (initState rnd)) = 24 \<and> length (flowSeries (initState rnd)) = 24
   \<and> length (pressSeries (initState rnd)) = 24 \<and> length (levelSeries (initState rnd)) = 24
   \<and> length (tempSeries (resetHistory rnd s)) = 24 \<and> length (flowSeries (resetHistory rnd s)) = 24
   \<and> length (pressSeries (resetHistory rnd s)) = 24 \<and> length (levelSeries (resetHistory rnd s)) = 24"
proof -
  define u where "u = fl (avg + fl (fl (rnd i - 0.5) * vari))"
  have point: "i < n \<longrightarrow> p_time (genSeed n avg vari rnd ! i) = show_nat i
        \<and> p_value (genSeed n avg vari rnd ! i) = fl (round2 u)"
    by (simp add: genSeed_map u_def)
  have bounds: "0 \<le> rnd i \<and> rnd i < 1 \<and> 0 \<le> vari \<longrightarrow>
        fl (avg - fl (vari / 2)) \<le> u \<and> u \<le> fl (avg + fl (vari / 2))"
    using seed_value_bounds [of "rnd i" vari avg] by (simp add: u_def)
  have near: "\<bar>u\<bar> < 10 ^ 21 \<longrightarrow>
        \<bar>round2 u - u\<bar> \<le> 1 / 200 \<and> (\<exists>k::int. round2 u = of_int k / 100)"
    using round2_near [of u] by blast
  have tied: "i < n \<and> 0 \<le> rnd i \<and> rnd i < 1 \<and> 0 \<le> vari \<longrightarrow>
        (\<exists>u. p_value (genSeed n avg vari rnd ! i) = fl (round2 u)
           \<and> fl (avg - fl (vari / 2)) \<le> u \<and> u \<le> fl (avg + fl (vari / 2)))"
    using point bounds by blast
  have lens: "length (tempSeries (initState rnd)) = 24 \<and> length (flowSeries (initState rnd)) = 24
   \<and> length (pressSeries (initState rnd)) = 24 \<and> length (levelSeries (initState rnd)) = 24
   \<and> length (tempSeries (resetHistory rnd s)) = 24 \<and> length (flowSeries (resetHistory rnd s)) = 24
   \<and> length (pressSeries (resetHistory rnd s)) = 24 \<and> length (levelSeries (resetHistory rnd s)) = 24"
    by (simp add: length_genSeed initState_def resetHistory_def)
  from genSeed_map [of n avg vari rnd] length_genSeed [of n avg vari rnd] point bounds tied near
    lens
  show ?thesis unfolding u_def by (intro conjI) (simp_all only: simp_thms)
qed

text \<open>
  The pressure series of the startup, whose call is \<open>genSeed(24, 2.1, 0.6)\<close>: with every
  draw \<open>3 / 8\<close> each point is 2.02 (the double nearest to it).
\<close>

theorem seed_points_witness:
  "(1::nat) < 2 \<and> (0::real) \<le> (\<lambda>i::nat. 3 / 8) 1 \<and> (\<lambda>i::nat. 3 / 8 :: real) 1 < 1
   \<and> (0::real) \<le> fl 0.6
   \<and> \<bar>fl (fl 2.1 + fl (fl (3 / 8 - 0.5) * fl 0.6))\<bar> < 10 ^ 21
   \<and> genSeed 2 (fl 2.1) (fl 0.6) (\<lambda>i. 3 / 8)
       = [\<lparr>p_time = ''0'', p_value = fl 2.02\<rparr>, \<lparr>p_time = ''1'', p_value = fl 2.02\<rparr>]
   \<and> p_value (genSeed 2 (fl 2.1) (fl 0.6) (\<lambda>i. 3 / 8) ! 1) = fl 2.02
   \<and> fl (fl 2.1 - fl (fl 0.6 / 2)) \<le> fl (fl 2.1 + fl (fl (3 / 8 - 0.5) * fl 0.6))
   \<and> fl (fl 2.1 + fl (fl (3 / 8 - 0.5) * fl 0.6)) \<le> fl (fl 2.1 + fl (fl 0.6 / 2))"
proof -
  have v: "fl (round2 (fl (fl 2.1 + fl (fl (3 / 8 - 0.5) * fl 0.6)))) = fl 2.02"
    by (simp add: ev)
  have h: "(1::nat) < 2" "(0::real) \<le> (\<lambda>i::nat. 3 / 8) 1" "(\<lambda>i::nat. 3 / 8 :: real) 1 < 1"
    "(0::real) \<le> fl 0.6" "\<bar>fl (fl 2.1 + fl (fl (3 / 8 - 0.5) * fl 0.6))\<bar> < 10 ^ 21"
    by (simp_all add: ev)
  note inst = seed_points [of 2 "fl 2.1" "fl 0.6" "\<lambda>i. 3 / 8" 1 "initState (\<lambda>i. 3 / 8)"]
  from inst have g: "genSeed 2 (fl 2.1) (fl 0.6) (\<lambda>i. 3 / 8)
       = map (\<lambda>i. \<lparr>p_time = show_nat i,
                p_value = fl (round2 (fl (fl 2.1 + fl (fl (3 / 8 - 0.5) * fl 0.6))))\<rparr>) [0..<2]"
    by blast
  have g': "genSeed 2 (fl 2.1) (fl 0.6) (\<lambda>i. 3 / 8)
       = [\<lparr>p_time = ''0'', p_value = fl 2.02\<rparr>, \<lparr>p_time = ''1'', p_value = fl 2.02\<rparr>]"
    unfolding g v by (simp add: show_nat.simps digit_def eval_nat_numeral)
  from inst h(1) have p: "p_value (genSeed 2 (fl 2.1) (fl 0.6) (\<lambda>i. 3 / 8) ! 1)
       = fl (round2 (fl (fl 2.1 + fl (fl (3 / 8 - 0.5) * fl 0.6))))"
    by blast
  from inst h(2,3,4)
  have b: "fl (fl 2.1 - fl (fl 0.6 / 2)) \<le> fl (fl 2.1 + fl (fl (3 / 8 - 0.5) * fl 0.6))
       \<and> fl (fl 2.1 + fl (fl (3 / 8 - 0.5) * fl 0.6)) \<le> fl (fl 2.1 + fl (fl 0.6 / 2))"
    by blast
  from h g' p [unfolded v] b show ?thesis by (intro conjI) (simp_all only: simp_thms)
qed

subsection \<open>Commands\<close>

text \<open>
  C6. Whatever the log holds and whatever values were entered into the five setpoint
  fields before, the log is empty, of length 0, right after the apply operation.
\<close>

theorem apply_clears_log:
  "alarms (applySetpoints s) = []
   \<and> length (alarms (applySetpoints s)) = 0
   \<and> alarms (applySetpoints (onChangeLevelHigh v5 (onChangeLevelLow v4 (onChangePressHigh v3
        (onChangeFlowLow v2 (onChangeTempHigh v1 s)))))) = []"
  by (simp add: applySetpoints_def)

text \<open>
  C7. A history reset replaces each of the four series by fresh seed data: 24 points,
  labelled 0 to 23, whose values are computed from the draws of the reset (the first 24
  draws for the temperature series, the next 24 for the flow series, and so on) around the
  averages 30, 145, 2.1 and 60. It leaves the instant readings, the alarm log, the
  setpoints, and the equipment and connection flags as they were.
\<close>

theorem reset_history_frame:
  "tempSeries (resetHistory rnd s) =
     map (\<lambda>i. \<lparr>p_time = show_nat i,
                p_value = fl (round2 (fl (30 + fl (fl (rnd i - 0.5) * 6))))\<rparr>) [0..<24]
   \<and> flowSeries (resetHistory rnd s) =
     map (\<lambda>i. \<lparr>p_time = show_nat i,
                p_value = fl (round2 (fl (145 + fl (fl (rnd (24 + i) - 0.5) * 30))))\<rparr>) [0..<24]
   \<and> pressSeries (resetHistory rnd s) =
     map (\<lambda>i. \<lparr>p_time = show_nat i,
                p_value = fl (round2 (fl (fl 2.1 + fl (fl (rnd (48 + i) - 0.5) * fl 0.6))))\<rparr>)
       [0..<24]
   \<and> levelSeries (resetHistory rnd s) =
     map (\<lambda>i. \<lparr>p_time = show_nat i,
                p_value = fl (round2 (fl (60 + fl (fl (rnd (72 + i) - 0.5) * 18))))\<rparr>) [0..<24]
   \<and> length (tempSeries (resetHistory rnd s)) = 24
   \<and> length (flowSeries (resetHistory rnd s)) = 24
   \<and> length (pressSeries (resetHistory rnd s)) = 24
   \<and> length (levelSeries (resetHistory rnd s)) = 24
   \<and> tempSeries (resetHistory rnd s) = genSeed 24 30 6 rnd
   \<and> flowSeries (resetHistory rnd s) = genSeed 24 145 30 (\<lambda>i. rnd (24 + i))
   \<and> pressSeries (resetHistory rnd s) = genSeed 24 (fl 2.1) (fl 0.6) (\<lambda>i. rnd (48 + i))
   \<and> levelSeries (resetHistory rnd s) = genSeed 24 60 18 (\<lambda>i. rnd (72 + i))
   \<and> tIn (resetHistory rnd s) = tIn s \<and> tOut (resetHistory rnd s) = tOut s
   \<and> flow (resetHistory rnd s) = flow s \<and> press (resetHistory rnd s) = press s
   \<and> level (resetHistory rnd s) = level s
   \<and> alarms (resetHistory rnd s) = alarms s
   \<and> setpoints (resetHistory rnd s) = setpoints s
   \<and> pumpOn (resetHistory rnd s) = pumpOn s \<and> fanOn (resetHistory rnd s) = fanOn s
   \<and> ethConnected (resetHistory rnd s) = ethConnected s
   \<and> modbusConnected (resetHistory rnd s) = modbusConnected s"
proof -
  have series: "tempSeries (resetHistory rnd s) = genSeed 24 30 6 rnd"
    "flowSeries (resetHistory rnd s) = genSeed 24 145 30 (\<lambda>i. rnd (24 + i))"
    "pressSeries (resetHistory rnd s) = genSeed 24 (fl 2.1) (fl 0.6) (\<lambda>i. rnd (48 + i))"
    "levelSeries (resetHistory rnd s) = genSeed 24 60 18 (\<lambda>i. rnd (72 + i))"
    by (simp_all add: resetHistory_def)
  have frame: "tIn (resetHistory rnd s) = tIn s" "tOut (resetHistory rnd s) = tOut s"
    "flow (resetHistory rnd s) = flow s" "press (resetHistory rnd s) = press s"
    "level (resetHistory rnd s) = level s" "alarms (resetHistory rnd s) = alarms s"
    "setpoints (resetHistory rnd s) = setpoints s"
    "pumpOn (resetHistory rnd s) = pumpOn s" "fanOn (resetHistory rnd s) = fanOn s"
    "ethConnected (resetHistory rnd s) = ethConnected s"
    "modbusConnected (resetHistory rnd s) = modbusConnected s"
    by (simp_all add: resetHistory_def)
  show ?thesis
    unfolding series length_genSeed
    by (intro conjI genSeed_map frame refl)
qed

subsection \<open>Setpoint input\<close>

lemmas number_ev = Number_def trim_def strip_front.simps ws_tokens_def non_decimal_def
  unsigned_decimal_def is_digit_def Let_def

lemma Number_examples:
  "Number '''' = Num 0" "Number ''abc'' = NaN" "Number ''Infinity'' = PosInf"
  "Number ''-Infinity'' = NegInf"
  by (simp_all add: number_ev)

text \<open>
  C4, as the claim states it, fails. With 78 in \<open>tempHigh\<close>, the text \<open>abc\<close> puts \<open>NaN\<close>
  there and the empty text, which is what a number input reports for an entry that is no
  number, puts 0 there; the text \<open>Infinity\<close> puts an infinity into \<open>levelHigh\<close> in place of
  90. The apply operation changes none of this.
\<close>

theorem setpoint_validation_counterexample:
  "tempHigh (setpoints (initState (\<lambda>i. 1 / 2))) = Num 78
   \<and> tempHigh (setpoints (applySetpoints (onChangeTempHighText ''abc'' (initState (\<lambda>i. 1 / 2)))))
      = NaN
   \<and> tempHigh (setpoints (applySetpoints (onChangeTempHighText '''' (initState (\<lambda>i. 1 / 2)))))
      = Num 0
   \<and> levelHigh (setpoints (initState (\<lambda>i. 1 / 2))) = Num 90
   \<and> levelHigh (setpoints (applySetpoints
        (onChangeLevelHighText ''Infinity'' (initState (\<lambda>i. 1 / 2))))) = PosInf"
  by (simp add: initState_def initSetpoints_def applySetpoints_def onChangeTempHigh_def
        onChangeLevelHigh_def onChangeTempHighText_def onChangeLevelHighText_def Number_examples)

text \<open>
  C4, amended. Whatever text the presentation layer supplies for a setpoint field, the
  field is set to \<open>Number\<close> of that text and the other four fields keep their values; there
  is no validation: the empty text gives 0, a text that is no number gives \<open>NaN\<close>,
  \<open>Infinity\<close> gives an infinity. Neither the apply operation nor a tick changes a setpoint.
  The alarm rules are evaluated against the stored values, and a rule whose setpoint is
  \<open>NaN\<close> never fires, whatever the readings and the other setpoints are.
\<close>

theorem setpoint_stored_as_supplied:
  "setpoints (onChangeTempHighText txt s) = (setpoints s)\<lparr>tempHigh := Number txt\<rparr>
   \<and> setpoints (onChangeFlowLowText txt s) = (setpoints s)\<lparr>flowLow := Number txt\<rparr>
   \<and> setpoints (onChangePressHighText txt s) = (setpoints s)\<lparr>pressHigh := Number txt\<rparr>
   \<and> setpoints (onChangeLevelLowText txt s) = (setpoints s)\<lparr>levelLow := Number txt\<rparr>
   \<and> setpoints (onChangeLevelHighText txt s) = (setpoints s)\<lparr>levelHigh := Number txt\<rparr>
   \<and> setpoints (onChangeTempHigh v s) = (setpoints s)\<lparr>tempHigh := v\<rparr>
   \<and> setpoints (onChangeFlowLow v s) = (setpoints s)\<lparr>flowLow := v\<rparr>
   \<and> setpoints (onChangePressHigh v s) = (setpoints s)\<lparr>pressHigh := v\<rparr>
   \<and> setpoints (onChangeLevelLow v s) = (setpoints s)\<lparr>levelLow := v\<rparr>
   \<and> setpoints (onChangeLevelHigh v s) = (setpoints s)\<lparr>levelHigh := v\<rparr>
   \<and> Number '''' = Num 0 \<and> Number ''abc'' = NaN
   \<and> Number ''Infinity'' = PosInf \<and> Number ''-Infinity'' = NegInf
   \<and> setpoints (applySetpoints s) = setpoints s
   \<and> setpoints (tick time rnd s) = setpoints s
   \<and> list_all (\<lambda>a. a_type a \<noteq> alta_temperatura)
        (newAlarms (sp\<lparr>tempHigh := NaN\<rparr>) time tempAvg fw pr lv)
   \<and> list_all (\<lambda>a. a_type a \<noteq> baixa_vazao)
        (newAlarms (sp\<lparr>flowLow := NaN\<rparr>) time tempAvg fw pr lv)
   \<and> list_all (\<lambda>a. a_type a \<noteq> pressao_elevada)
        (newAlarms (sp\<lparr>pressHigh := NaN\<rparr>) time tempAvg fw pr lv)
   \<and> list_all (\<lambda>a. a_type a \<noteq> nivel_baixo)
        (newAlarms (sp\<lparr>levelLow := NaN\<rparr>) time tempAvg fw pr lv)
   \<and> list_all (\<lambda>a. a_type a \<noteq> nivel_alto)
        (newAlarms (sp\<lparr>levelHigh := NaN\<rparr>) time tempAvg fw pr lv)
   \<and> newAlarms \<lparr>tempHigh = NaN, flowLow = NaN, pressHigh = NaN, levelLow = NaN, levelHigh = NaN\<rparr>
        time tempAvg fw pr lv = []"
proof -
  have handlers:
    "setpoints (onChangeTempHighText txt s) = (setpoints s)\<lparr>tempHigh := Number txt\<rparr>"
    "setpoints (onChangeFlowLowText txt s) = (setpoints s)\<lparr>flowLow := Number txt\<rparr>"
    "setpoints (onChangePressHighText txt s) = (setpoints s)\<lparr>pressHigh := Number txt\<rparr>"
    "setpoints (onChangeLevelLowText txt s) = (setpoints s)\<lparr>levelLow := Number txt\<rparr>"
    "setpoints (onChangeLevelHighText txt s) = (setpoints s)\<lparr>levelHigh := Number txt\<rparr>"
    "setpoints (onChangeTempHigh v s) = (setpoints s)\<lparr>tempHigh := v\<rparr>"
    "setpoints (onChangeFlowLow v s) = (setpoints s)\<lparr>flowLow := v\<rparr>"
    "setpoints (onChangePressHigh v s) = (setpoints s)\<lparr>pressHigh := v\<rparr>"
    "setpoints (onChangeLevelLow v s) = (setpoints s)\<lparr>levelLow := v\<rparr>"
    "setpoints (onChangeLevelHigh v s) = (setpoints s)\<lparr>levelHigh := v\<rparr>"
    "setpoints (applySetpoints s) = setpoints s"
    "setpoints (tick time rnd s) = setpoints s"
    by (simp_all add: onChangeTempHighText_def onChangeFlowLowText_def onChangePressHighText_def
          onChangeLevelLowText_def onChangeLevelHighText_def onChangeTempHigh_def
          onChangeFlowLow_def onChangePressHigh_def onChangeLevelLow_def onChangeLevelHigh_def
          applySetpoints_def tick_def)
  have names: "alta_temperatura \<noteq> baixa_vazao" "alta_temperatura \<noteq> pressao_elevada"
    "alta_temperatura \<noteq> nivel_baixo" "alta_temperatura \<noteq> nivel_alto"
    "baixa_vazao \<noteq> pressao_elevada" "baixa_vazao \<noteq> nivel_baixo" "baixa_vazao \<noteq> nivel_alto"
    "pressao_elevada \<noteq> nivel_baixo" "pressao_elevada \<noteq> nivel_alto" "nivel_baixo \<noteq> nivel_alto"
    by (simp_all add: alta_temperatura_def baixa_vazao_def pressao_elevada_def nivel_baixo_def
          nivel_alto_def)
  have nan:
    "list_all (\<lambda>a. a_type a \<noteq> alta_temperatura)
        (newAlarms (sp\<lparr>tempHigh := NaN\<rparr>) time tempAvg fw pr lv)"
    "list_all (\<lambda>a. a_type a \<noteq> baixa_vazao)
        (newAlarms (sp\<lparr>flowLow := NaN\<rparr>) time tempAvg fw pr lv)"
    "list_all (\<lambda>a. a_type a \<noteq> pressao_elevada)
        (newAlarms (sp\<lparr>pressHigh := NaN\<rparr>) time tempAvg fw pr lv)"
    "list_all (\<lambda>a. a_type a \<noteq> nivel_baixo)
        (newAlarms (sp\<lparr>levelLow := NaN\<rparr>) time tempAvg fw pr lv)"
    "list_all (\<lambda>a. a_type a \<noteq> nivel_alto)
        (newAlarms (sp\<lparr>levelHigh := NaN\<rparr>) time tempAvg fw pr lv)"
    "newAlarms \<lparr>tempHigh = NaN, flowLow = NaN, pressHigh = NaN, levelLow = NaN, levelHigh = NaN\<rparr>
        time tempAvg fw pr lv = []"
    using names names [symmetric] by (simp_all add: newAlarms_append js_gt_def)
  from handlers Number_examples nan show ?thesis by (intro conjI)
qed

subsection \<open>Equipment and connection flags\<close>

lemma tick_flags:
  "tick time rnd (s\<lparr>pumpOn := p, fanOn := f, ethConnected := e, modbusConnected := m\<rparr>)
   = (tick time rnd s)\<lparr>pumpOn := p, fanOn := f, ethConnected := e, modbusConnected := m\<rparr>"
  by (simp add: tick_def)

lemma ticks_flags:
  "ticks (s\<lparr>pumpOn := p, fanOn := f, ethConnected := e, modbusConnected := m\<rparr>) ts
   = (ticks s ts)\<lparr>pumpOn := p, fanOn := f, ethConnected := e, modbusConnected := m\<rparr>"
  unfolding ticks_def
  by (induction ts arbitrary: s) (simp_all add: tick_flags split: prod.splits)

lemma differ_in_flags:
  fixes s s' :: State
  assumes "tempSeries s' = tempSeries s" "flowSeries s' = flowSeries s"
    "pressSeries s' = pressSeries s" "levelSeries s' = levelSeries s"
    "tIn s' = tIn s" "tOut s' = tOut s" "flow s' = flow s" "press s' = press s"
    "level s' = level s" "alarms s' = alarms s" "setpoints s' = setpoints s"
  shows "s' = s\<lparr>pumpOn := pumpOn s', fanOn := fanOn s', ethConnected := ethConnected s',
                modbusConnected := modbusConnected s'\<rparr>"
  using assms by (cases s, cases s') simp

text \<open>
  C9. Take two states that agree on the four series, the instant readings, the alarm log
  and the setpoints, so that they differ at most in the pump, fan and connection flags,
  and run the same ticks (same labels, same draws) from both. The two results have the
  same series, the same instant readings and the same alarm log, the KPIs computed from
  them with the same draws are the same, and each run keeps its own flags.
\<close>

theorem flags_no_effect:
  assumes "tempSeries s' = tempSeries s" and "flowSeries s' = flowSeries s"
    and "pressSeries s' = pressSeries s" and "levelSeries s' = levelSeries s"
    and "tIn s' = tIn s" and "tOut s' = tOut s" and "flow s' = flow s" and "press s' = press s"
    and "level s' = level s" and "alarms s' = alarms s" and "setpoints s' = setpoints s"
  shows "tempSeries (ticks s' ts) = tempSeries (ticks s ts)
       \<and> flowSeries (ticks s' ts) = flowSeries (ticks s ts)
       \<and> pressSeries (ticks s' ts) = pressSeries (ticks s ts)
       \<and> levelSeries (ticks s' ts) = levelSeries (ticks s ts)
       \<and> tIn (ticks s' ts) = tIn (ticks s ts) \<and> tOut (ticks s' ts) = tOut (ticks s ts)
       \<and> flow (ticks s' ts) = flow (ticks s ts) \<and> press (ticks s' ts) = press (ticks s ts)
       \<and> level (ticks s' ts) = level (ticks s ts)
       \<and> alarms (ticks s' ts) = alarms (ticks s ts)
       \<and> setpoints (ticks s' ts) = setpoints (ticks s ts)
       \<and> kpis (tIn (ticks s' ts)) (tOut (ticks s' ts)) krnd
           = kpis (tIn (ticks s ts)) (tOut (ticks s ts)) krnd
       \<and> pumpOn (ticks s' ts) = pumpOn s' \<and> fanOn (ticks s' ts) = fanOn s'
       \<and> ethConnected (ticks s' ts) = ethConnected s'
       \<and> modbusConnected (ticks s' ts) = modbusConnected s'"
proof -
  have "ticks s' ts = (ticks s ts)\<lparr>pumpOn := pumpOn s', fanOn := fanOn s',
          ethConnected := ethConnected s', modbusConnected := modbusConnected s'\<rparr>"
    by (subst differ_in_flags [OF assms]) (rule ticks_flags)
  then show ?thesis by simp
qed

theorem flags_no_effect_witness:
  "pumpOn (togglePump (simulateModbus (initState (\<lambda>i. 1 / 2)))) \<noteq> pumpOn (initState (\<lambda>i. 1 / 2))
   \<and> modbusConnected (togglePump (simulateModbus (initState (\<lambda>i. 1 / 2))))
       \<noteq> modbusConnected (initState (\<lambda>i. 1 / 2))
   \<and> alarms (ticks (togglePump (simulateModbus (initState (\<lambda>i. 1 / 2))))
        [(''10:15:00'', \<lambda>i. 1 / 2), (''10:15:02'', \<lambda>i. 1 / 4)])
      = alarms (ticks (initState (\<lambda>i. 1 / 2))
        [(''10:15:00'', \<lambda>i. 1 / 2), (''10:15:02'', \<lambda>i. 1 / 4)])
   \<and> tempSeries (ticks (togglePump (simulateModbus (initState (\<lambda>i. 1 / 2))))
        [(''10:15:00'', \<lambda>i. 1 / 2), (''10:15:02'', \<lambda>i. 1 / 4)])
      = tempSeries (ticks (initState (\<lambda>i. 1 / 2))
        [(''10:15:00'', \<lambda>i. 1 / 2), (''10:15:02'', \<lambda>i. 1 / 4)])"
  using flags_no_effect [of "togglePump (simulateModbus (initState (\<lambda>i. 1 / 2)))"
      "initState (\<lambda>i. 1 / 2)" "[(''10:15:00'', \<lambda>i. 1 / 2), (''10:15:02'', \<lambda>i. 1 / 4)]"]
  by (simp add: togglePump_def simulateModbus_def initState_def)

subsection \<open>Efficiency\<close>



subsection \<open>Inlet and outlet temperature\<close>

lemma newTIn_range:
  assumes "0 \<le> rnd 0" and "rnd 0 < 1"
  shows "70 \<le> newTIn rnd \<and> newTIn rnd \<le> 85"
proof -
  have "fl 0 \<le> fl (rnd 0 * 15)" using assms by (intro fl_mono) simp
  moreover have "fl (rnd 0 * 15) \<le> fl 15" using assms by (intro fl_mono) simp
  moreover have "fl 0 = 0" "fl 15 = 15" by (simp_all add: ev)
  ultimately have a: "0 \<le> fl (rnd 0 * 15)" "fl (rnd 0 * 15) \<le> 15" by simp_all
  have "fl 70 \<le> fl (70 + fl (rnd 0 * 15))" using a by (intro fl_mono) simp
  moreover have "fl (70 + fl (rnd 0 * 15)) \<le> fl 85" using a by (intro fl_mono) simp
  moreover have "fl 70 = 70" "fl 85 = 85" by (simp_all add: ev)
  ultimately show ?thesis by (simp add: newTIn_def)
qed

lemma drop_range:
  assumes "fl r = r" and "0 \<le> r" and "r < 1"
  shows "8 \<le> fl (8 + fl (r * 20)) \<and> fl (8 + fl (r * 20)) < 28"
proof -
  have m: "r \<le> 1 - 1 / 2 ^ 53" using assms by (rule draw_max)
  have "fl 0 \<le> fl (r * 20)" using assms by (intro fl_mono) simp
  moreover have "fl (r * 20) \<le> fl ((1 - 1 / 2 ^ 53) * 20)" using m by (intro fl_mono) simp
  moreover have "fl 0 = 0" "fl ((1 - 1 / 2 ^ 53) * 20) = 20 - 1 / 2 ^ 48" by (simp_all add: ev)
  ultimately have a: "0 \<le> fl (r * 20)" "fl (r * 20) \<le> 20 - 1 / 2 ^ 48" by simp_all
  have "fl 8 \<le> fl (8 + fl (r * 20))" using a by (intro fl_mono) simp
  moreover have "fl (8 + fl (r * 20)) \<le> fl (28 - 1 / 2 ^ 48)" using a by (intro fl_mono) simp
  moreover have "fl 8 = 8" "fl (28 - 1 / 2 ^ 48) = 28 - 1 / 2 ^ 48" by (simp_all add: ev)
  ultimately show ?thesis by simp
qed

lemma newTOut_below:
  assumes "0 \<le> rnd 0" and "rnd 0 < 1" and "fl (rnd 1) = rnd 1" and "0 \<le> rnd 1" and "rnd 1 < 1"
  shows "fl (newTIn rnd - fl (8 + fl (rnd 1 * 20))) < newTIn rnd
       \<and> 42 \<le> fl (newTIn rnd - fl (8 + fl (rnd 1 * 20)))"
proof -
  define t where "t = newTIn rnd"
  define d where "d = fl (8 + fl (rnd 1 * 20))"
  have t: "70 \<le> t" "t \<le> 85" using newTIn_range [of rnd] assms(1,2) by (simp_all add: t_def)
  have d: "8 \<le> d" "d < 28" using drop_range [of "rnd 1"] assms(3,4,5) by (simp_all add: d_def)
  have "fl (t - d) \<le> fl (t - 8)" using d by (intro fl_mono) simp
  moreover have "fl (t - 8) < t"
  proof -
    define b where "b = \<bar>t - 8\<bar> / 2 ^ 53"
    have "\<bar>fl (t - 8) - (t - 8)\<bar> \<le> b"
      unfolding b_def using t by (intro fl_err_rel) (simp add: power_int_minus_divide)
    then have "fl (t - 8) - (t - 8) \<le> b" by linarith
    moreover have "b < 8" unfolding b_def using t by simp
    ultimately show ?thesis by linarith
  qed
  ultimately have up: "fl (t - d) < t" by linarith
  have "fl 42 \<le> fl (t - d)" using t d by (intro fl_mono) simp
  moreover have "fl 42 = 42" by (simp add: ev)
  ultimately have lo: "42 \<le> fl (t - d)" by simp
  show ?thesis unfolding t_def [symmetric] d_def [symmetric] using up lo by simp
qed

text \<open>
  C8, as the claim states it, fails: the inlet temperature is not always below 85. At the
  largest draw, the double \<open>1 - 2^-53\<close>, the double operations of \<open>70 + r * 15\<close> round
  up to exactly 85, and so they do at the draw \<open>1 - 2^-52\<close>.
\<close>

theorem inlet_range_counterexample:
  "(0::real) \<le> 1 - 1 / 2 ^ 53 \<and> (1::real) - 1 / 2 ^ 53 < 1
   \<and> fl (1 - 1 / 2 ^ 53) = 1 - 1 / 2 ^ 53
   \<and> newTIn (\<lambda>i. 1 - 1 / 2 ^ 53) = 85
   \<and> \<not> newTIn (\<lambda>i. 1 - 1 / 2 ^ 53) < 85
   \<and> fl (1 - 1 / 2 ^ 52) = 1 - 1 / 2 ^ 52
   \<and> newTIn (\<lambda>i. 1 - 1 / 2 ^ 52) = 85"
  by (simp add: newTIn_def ev)

text \<open>
  C8, amended. On a tick whose first two draws are doubles in \<open>[0, 1)\<close>, the inlet
  temperature \<open>70 + r * 15\<close> is in \<open>[70, 85]\<close>, both ends reached (85 by rounding at the
  largest draw), the drop \<open>8 + r' * 20\<close> is in \<open>[8, 28)\<close>, and the outlet temperature is
  \<open>max 15 (newTIn - drop)\<close>, all in double arithmetic. The outlet temperature is strictly
  below the inlet temperature and never below 15; it is never below 42 either, so the
  floor 15 is never active.
\<close>

theorem outlet_cooler_than_inlet:
  assumes "0 \<le> rnd 0" and "rnd 0 < 1"
    and "fl (rnd 1) = rnd 1" and "0 \<le> rnd 1" and "rnd 1 < 1"
  shows "newTIn rnd = fl (70 + fl (rnd 0 * 15))
       \<and> 70 \<le> newTIn rnd \<and> newTIn rnd \<le> 85
       \<and> newTIn (\<lambda>i. 0) = 70 \<and> newTIn (\<lambda>i. 1 - 1 / 2 ^ 53) = 85
       \<and> 8 \<le> fl (8 + fl (rnd 1 * 20)) \<and> fl (8 + fl (rnd 1 * 20)) < 28
       \<and> newTOut rnd = max 15 (fl (newTIn rnd - fl (8 + fl (rnd 1 * 20))))
       \<and> newTOut rnd = fl (newTIn rnd - fl (8 + fl (rnd 1 * 20)))
       \<and> newTOut rnd < newTIn rnd
       \<and> 15 \<le> newTOut rnd \<and> 42 \<le> newTOut rnd"
proof -
  have ends: "newTIn (\<lambda>i. 0) = 70" "newTIn (\<lambda>i. 1 - 1 / 2 ^ 53) = 85"
    by (simp_all add: newTIn_def ev)
  from newTOut_below [OF assms]
  have o: "fl (newTIn rnd - fl (8 + fl (rnd 1 * 20))) < newTIn rnd"
    "42 \<le> fl (newTIn rnd - fl (8 + fl (rnd 1 * 20)))" by simp_all
  then have m: "newTOut rnd = fl (newTIn rnd - fl (8 + fl (rnd 1 * 20)))"
    by (simp add: newTOut_def)
  from newTIn_range [of rnd] assms(1,2) drop_range [of "rnd 1"] assms(3,4,5) ends o m
  show ?thesis by (simp add: newTIn_def newTOut_def)
qed

theorem outlet_cooler_than_inlet_witness:
  "(0::real) \<le> (\<lambda>i::nat. 1 / 2) 0 \<and> (\<lambda>i::nat. 1 / 2 :: real) 0 < 1
   \<and> fl ((\<lambda>i::nat. 1 / 2) 1) = (\<lambda>i::nat. 1 / 2) 1
   \<and> (0::real) \<le> (\<lambda>i::nat. 1 / 2) 1 \<and> (\<lambda>i::nat. 1 / 2 :: real) 1 < 1
   \<and> newTIn (\<lambda>i. 1 / 2) = 77.5 \<and> newTOut (\<lambda>i. 1 / 2) = 59.5
   \<and> newTOut (\<lambda>i. 1 / 2) < newTIn (\<lambda>i. 1 / 2)"
proof -
  have h: "(0::real) \<le> (\<lambda>i::nat. 1 / 2) 0" "(\<lambda>i::nat. 1 / 2 :: real) 0 < 1"
    "fl ((\<lambda>i::nat. 1 / 2) 1) = (\<lambda>i::nat. 1 / 2) 1"
    "(0::real) \<le> (\<lambda>i::nat. 1 / 2) 1" "(\<lambda>i::nat. 1 / 2 :: real) 1 < 1"
    by (simp_all add: ev)
  have v: "newTIn (\<lambda>i. 1 / 2) = 77.5" "newTOut (\<lambda>i. 1 / 2) = 59.5"
    by (simp_all add: newTIn_def newTOut_def ev)
  from outlet_cooler_than_inlet [OF h]
  have "newTOut (\<lambda>i. 1 / 2) < newTIn (\<lambda>i. 1 / 2)" by blast
  with h v show ?thesis by (intro conjI)
qed

end
